theory Spec2Isabelle
  imports Main "HOL-Library.Multiset"
begin

section \<open>The BEAM content model\<close>

text \<open>
  Go strings are byte sequences, so they are modelled as \<open>string\<close> (a list of 8-bit
  characters).  A \<open>time.Time\<close> is modelled by the instant it denotes, as the number of
  nanoseconds since the Unix epoch, and the offset of its zone at that instant, in seconds
  east of UTC.  \<open>After\<close>, \<open>IsZero\<close> and \<open>Unix\<close> only look at the instant; what is
  printed (\<open>Format\<close>, \<open>MarshalJSON\<close>) shows the wall clock of the zone and so depends
  on the offset too.  The monotonic clock reading and the name of the zone take no part
  in anything the package does.  Go's \<open>int\<close> is 64 bits wide; the only arithmetic on it
  here is a division of a slice length, which cannot overflow, so it is modelled as
  \<open>int\<close>.
\<close>

record Time =
  unixNano :: int
  zoneOffset :: int

definition zeroTime :: Time where
  \<comment> \<open>the zero \<open>time.Time\<close>: January 1, year 1, 00:00:00 UTC\<close>
  "zeroTime = \<lparr>unixNano = - 62135596800 * 1000000000, zoneOffset = 0\<rparr>"

definition IsZero :: "Time \<Rightarrow> bool" where
  "IsZero t \<longleftrightarrow> unixNano t = unixNano zeroTime"

definition After :: "Time \<Rightarrow> Time \<Rightarrow> bool" where
  "After t u \<longleftrightarrow> unixNano u < unixNano t"

definition Unix :: "Time \<Rightarrow> int" where
  \<comment> \<open>whole seconds since the epoch, rounded towards minus infinity\<close>
  "Unix t = unixNano t div 1000000000"

definition UTC :: "Time \<Rightarrow> Time" where
  \<comment> \<open>the same instant, shown in UTC\<close>
  "UTC t = t\<lparr>zoneOffset := 0\<rparr>"

definition Version :: string where
  "Version = ''1.0''"

definition ContentTypeJSON :: string where
  "ContentTypeJSON = ''application/json; charset=utf-8''"

definition DefaultCacheControl :: string where
  "DefaultCacheControl = ''public, max-age=3600''"

text \<open>
  A Go slice may be nil.  A nil slice and an empty one have the same length and the same
  elements, but \<open>encoding/json\<close> writes \<open>null\<close> for the one and \<open>[]\<close> for the
  other where the field is not marked \<open>omitempty\<close>, as \<open>Feed.Items\<close> is not.
\<close>

datatype 'a slice = NilSlice | Slice "'a list"

fun elems :: "'a slice \<Rightarrow> 'a list" where
  "elems NilSlice = []"
| "elems (Slice xs) = xs"

definition append1 :: "'a slice \<Rightarrow> 'a \<Rightarrow> 'a slice" where
  \<comment> \<open>\<open>append(s, x)\<close>: the result is never nil\<close>
  "append1 s x = Slice (elems s @ [x])"

record Author =
  Name :: string
  Email :: string
  AuthorURL :: string

record Entry =
  ID :: string
  EntryTitle :: string
  Content :: string
  Summary :: string
  URL :: string
  Published :: Time
  Updated :: "Time option"
  EntryAuthor :: "Author option"
  Tags :: "string list"
  Category :: string
  Image :: string
  ReadingTime :: int

record Feed =
  FeedVersion :: string
  Title :: string
  Description :: string
  HomePageURL :: string
  FeedURL :: string
  Language :: string
  FeedAuthor :: "Author option"
  LastUpdated :: "Time option"
  Items :: "Entry slice"

subsection \<open>Errors\<close>

text \<open>
  Every Go \<open>error\<close> value that the package builds: a \<open>ValidationError\<close> (field and
  message), an \<open>errors.New\<close> string, an error wrapped by \<open>fmt.Errorf("...: %w", err)\<close>,
  and an error handed back by a library call (JSON, HTTP), of which only the message is
  kept.  A panic is not an error value; it is the separate outcome \<open>Panic\<close>.
\<close>

datatype error =
    ValidationError string string
  | ErrorString string
  | Errorf string error
  | LibError string

fun Error :: "error \<Rightarrow> string" where
  "Error (ValidationError field message) =
     ''validation error in field '' @ [CHR 0x27] @ field @ [CHR 0x27] @ '': '' @ message"
| "Error (ErrorString s) = s"
| "Error (Errorf prefix e) = prefix @ '': '' @ Error e"
| "Error (LibError s) = s"

definition NewError :: "string \<Rightarrow> string \<Rightarrow> error" where
  "NewError field message = ValidationError field message"

datatype 'a outcome = Panic string | Return 'a

subsection \<open>Decimal printing (\<open>%d\<close>)\<close>

definition digit :: "nat \<Rightarrow> char" where
  "digit d = ''0123456789'' ! d"

function itoa_nat :: "nat \<Rightarrow> string" where
  "itoa_nat n = (if n < 10 then [digit n] else itoa_nat (n div 10) @ [digit (n mod 10)])"
  by pat_completeness auto
termination
  by (relation "measure id") auto

definition itoa :: "int \<Rightarrow> string" where
  "itoa i = (if i < 0 then CHR ''-'' # itoa_nat (nat (- i)) else itoa_nat (nat i))"

subsection \<open>White space, \<open>strings.Fields\<close> and \<open>strings.TrimSpace\<close>\<close>

text \<open>
  \<open>unicode.IsSpace\<close> holds for the code points U+0009..U+000D, U+0020, U+0085,
  U+00A0, U+1680, U+2000..U+200A, U+2028, U+2029, U+202F, U+205F and U+3000.  The list
  below holds their UTF-8 encodings.  Each starts with an ASCII byte or a lead byte, which
  the decoder never consumes as a continuation byte, so an encoding found at a byte
  position is a white-space rune there.
\<close>

definition spaceEncodings :: "string list" where
  "spaceEncodings =
     [[CHR 0x09], [CHR 0x0A], [CHR 0x0B], [CHR 0x0C], [CHR 0x0D], [CHR 0x20],
      [CHR 0xC2, CHR 0x85], [CHR 0xC2, CHR 0xA0],
      [CHR 0xE1, CHR 0x9A, CHR 0x80],
      [CHR 0xE2, CHR 0x80, CHR 0x80], [CHR 0xE2, CHR 0x80, CHR 0x81],
      [CHR 0xE2, CHR 0x80, CHR 0x82], [CHR 0xE2, CHR 0x80, CHR 0x83],
      [CHR 0xE2, CHR 0x80, CHR 0x84], [CHR 0xE2, CHR 0x80, CHR 0x85],
      [CHR 0xE2, CHR 0x80, CHR 0x86], [CHR 0xE2, CHR 0x80, CHR 0x87],
      [CHR 0xE2, CHR 0x80, CHR 0x88], [CHR 0xE2, CHR 0x80, CHR 0x89],
      [CHR 0xE2, CHR 0x80, CHR 0x8A],
      [CHR 0xE2, CHR 0x80, CHR 0xA8], [CHR 0xE2, CHR 0x80, CHR 0xA9],
      [CHR 0xE2, CHR 0x80, CHR 0xAF], [CHR 0xE2, CHR 0x81, CHR 0x9F],
      [CHR 0xE3, CHR 0x80, CHR 0x80]]"

definition spaceWidth :: "string \<Rightarrow> nat" where
  \<comment> \<open>the number of bytes of the white-space rune the string starts with, 0 if none\<close>
  "spaceWidth s =
     (case filter (\<lambda>p. take (length p) s = p) spaceEncodings of
        [] \<Rightarrow> 0 | p # _ \<Rightarrow> length p)"

definition spaceWidthLast :: "string \<Rightarrow> nat" where
  \<comment> \<open>the number of bytes of the white-space rune the string ends with, 0 if none\<close>
  "spaceWidthLast s =
     (case filter (\<lambda>p. length p \<le> length s \<and> drop (length s - length p) s = p) spaceEncodings of
        [] \<Rightarrow> 0 | p # _ \<Rightarrow> length p)"

function FieldsFrom :: "string \<Rightarrow> string \<Rightarrow> string list" where
  "FieldsFrom w [] = (if w = [] then [] else [w])"
| "FieldsFrom w (c # cs) =
     (if spaceWidth (c # cs) = 0 then FieldsFrom (w @ [c]) cs
      else (if w = [] then [] else [w]) @ FieldsFrom [] (drop (spaceWidth (c # cs) - 1) cs))"
  by pat_completeness auto
termination
  by (relation "measure (\<lambda>(w, s). length s)") auto

definition Fields :: "string \<Rightarrow> string list" where
  \<comment> \<open>\<open>strings.Fields\<close>: the maximal runs of bytes that hold no white-space rune\<close>
  "Fields s = FieldsFrom [] s"

function TrimLeftSpace :: "string \<Rightarrow> string" where
  "TrimLeftSpace s =
     (if spaceWidth s = 0 \<or> s = [] then s else TrimLeftSpace (drop (spaceWidth s) s))"
  by pat_completeness auto
termination
  by (relation "measure length") auto

function TrimRightSpace :: "string \<Rightarrow> string" where
  "TrimRightSpace s =
     (if spaceWidthLast s = 0 \<or> s = [] then s
      else TrimRightSpace (take (length s - spaceWidthLast s) s))"
  by pat_completeness auto
termination
  by (relation "measure length") auto

definition TrimSpace :: "string \<Rightarrow> string" where
  "TrimSpace s = TrimRightSpace (TrimLeftSpace s)"

subsection \<open>Reading time\<close>

text \<open>
  \<open>regexp.MustCompile(`<[^>]*>`).ReplaceAllString(content, " ")\<close>: scanning from the
  left, a \<open><\<close> that is followed somewhere by a \<open>>\<close> starts a match that runs to the
  first such \<open>>\<close> (the class \<open>[^>]\<close> takes every other rune, line breaks and invalid
  bytes included); the match is replaced by one blank and the scan goes on behind it.
\<close>

function replaceTags :: "string \<Rightarrow> string" where
  "replaceTags [] = []"
| "replaceTags (c # cs) =
     (if c = CHR ''<'' \<and> CHR ''>'' \<in> set cs
      then CHR '' '' # replaceTags (tl (dropWhile (\<lambda>x. x \<noteq> CHR ''>'') cs))
      else c # replaceTags cs)"
  by pat_completeness auto
termination
proof (relation "measure length")
  show "wf (measure length)" by simp
next
  fix c :: char and cs :: string
  have "length (dropWhile (\<lambda>x. x \<noteq> CHR ''>'') cs) \<le> length cs"
    by (rule length_dropWhile_le)
  then show "(tl (dropWhile (\<lambda>x. x \<noteq> CHR ''>'') cs), c # cs) \<in> measure length"
    by simp
next
  fix c :: char and cs :: string
  show "(cs, c # cs) \<in> measure length" by simp
qed

definition CalculateReadingTime :: "string \<Rightarrow> int" where
  "CalculateReadingTime content =
     (if content = [] then 0
      else let plainText = replaceTags content;
               words = Fields plainText;
               wordCount = int (length words);
               readingTime = wordCount div 200
           in max readingTime 1)"

definition NewEntry :: "string \<Rightarrow> string \<Rightarrow> string \<Rightarrow> Time \<Rightarrow> Entry" where
  "NewEntry ident title url published =
     \<lparr>ID = ident, EntryTitle = title, Content = [], Summary = [], URL = url,
      Published = UTC published, Updated = None, EntryAuthor = None, Tags = [], Category = [],
      Image = [], ReadingTime = 0\<rparr>"

definition SetSummary :: "Entry \<Rightarrow> string \<Rightarrow> Entry" where
  "SetSummary e summary = e\<lparr>Summary := summary\<rparr>"

definition SetContent :: "Entry \<Rightarrow> string \<Rightarrow> Entry" where
  "SetContent e content = e\<lparr>Content := content, ReadingTime := CalculateReadingTime content\<rparr>"

subsection \<open>Validation\<close>

definition HasPrefix :: "string \<Rightarrow> string \<Rightarrow> bool" where
  "HasPrefix s p \<longleftrightarrow> take (length p) s = p"

definition isValidURL :: "string \<Rightarrow> bool" where
  "isValidURL str =
     (if str = [] then False
      else HasPrefix str ''http://'' \<or> HasPrefix str ''https://'')"

definition Entry_Validate :: "Entry \<Rightarrow> error option" where
  "Entry_Validate e =
     (if TrimSpace (ID e) = [] then Some (NewError ''id'' ''id is required'')
      else if TrimSpace (EntryTitle e) = [] then Some (NewError ''title'' ''title is required'')
      else if \<not> isValidURL (URL e) then Some (NewError ''url'' ''url must be a valid URL'')
      else if IsZero (Published e)
        then Some (NewError ''published'' ''published timestamp is required'')
      else if Image e \<noteq> [] \<and> \<not> isValidURL (Image e)
        then Some (NewError ''image'' ''image must be a valid URL'')
      else None)"

definition lookupID :: "(string \<rightharpoonup> bool) \<Rightarrow> string \<Rightarrow> bool" where
  \<comment> \<open>reading a \<open>map[string]bool\<close>: a missing key reads as \<open>false\<close>\<close>
  "lookupID m k = (case m k of None \<Rightarrow> False | Some b \<Rightarrow> b)"

text \<open>
  The loop of \<open>Feed.Validate\<close> over \<open>f.Items\<close>: \<open>entryIDs\<close> is the map of the
  identifiers seen so far and \<open>i\<close> the index of the entry at the head of the list.
\<close>

fun validateItems :: "(string \<rightharpoonup> bool) \<Rightarrow> nat \<Rightarrow> Entry list \<Rightarrow> error option" where
  "validateItems entryIDs i [] = None"
| "validateItems entryIDs i (entry # rest) =
     (case Entry_Validate entry of
        Some err \<Rightarrow> Some (Errorf (''entry '' @ itoa (int i)) err)
      | None \<Rightarrow>
          if lookupID entryIDs (ID entry)
          then Some (NewError ''items'' (''duplicate entry ID: '' @ ID entry))
          else validateItems (entryIDs(ID entry \<mapsto> True)) (Suc i) rest)"

definition Feed_Validate :: "Feed \<Rightarrow> error option" where
  "Feed_Validate f =
     (if FeedVersion f \<noteq> Version
        then Some (NewError ''version''
               (''unsupported version: '' @ FeedVersion f @ '', expected: '' @ Version))
      else if TrimSpace (Title f) = [] then Some (NewError ''title'' ''title is required'')
      else if \<not> isValidURL (FeedURL f)
        then Some (NewError ''feed_url'' ''feed_url must be a valid URL'')
      else if HomePageURL f \<noteq> [] \<and> \<not> isValidURL (HomePageURL f)
        then Some (NewError ''home_page_url'' ''home_page_url must be a valid URL'')
      else validateItems Map.empty 0 (elems (Items f)))"

fun errorField :: "error \<Rightarrow> string option" where
  \<comment> \<open>the field a \<open>ValidationError\<close> refers to; other errors have none\<close>
  "errorField (ValidationError field message) = Some field"
| "errorField _ = None"

definition feedChecksPass :: "Feed \<Rightarrow> bool" where
  \<comment> \<open>the four checks \<open>Feed.Validate\<close> makes before it looks at the items\<close>
  "feedChecksPass f \<longleftrightarrow>
     FeedVersion f = Version \<and> TrimSpace (Title f) \<noteq> [] \<and> isValidURL (FeedURL f) \<and>
     (HomePageURL f = [] \<or> isValidURL (HomePageURL f))"

definition firstDuplicate :: "Entry list \<Rightarrow> Entry list \<Rightarrow> Entry \<Rightarrow> Entry list \<Rightarrow> bool" where
  \<comment> \<open>\<open>d\<close> is the first entry of \<open>items\<close> whose identifier an earlier entry has\<close>
  "firstDuplicate items pre d rest \<longleftrightarrow>
     items = pre @ d # rest \<and> distinct (map ID pre) \<and> ID d \<in> ID ` set pre"

subsection \<open>Building feeds\<close>

text \<open>\<open>time.Now()\<close> is an input: each function that reads the clock takes the reading.\<close>

definition NewFeed :: "Time \<Rightarrow> string \<Rightarrow> string \<Rightarrow> Feed" where
  "NewFeed now title feedURL =
     \<lparr>FeedVersion = Version, Title = title, Description = [], HomePageURL = [],
      FeedURL = feedURL, Language = [], FeedAuthor = None, LastUpdated = Some (UTC now),
      Items = Slice []\<rparr>"

definition AddEntry :: "Time \<Rightarrow> Feed \<Rightarrow> Entry \<Rightarrow> Feed" where
  "AddEntry now f entry = f\<lparr>Items := append1 (Items f) entry, LastUpdated := Some (UTC now)\<rparr>"

definition SetDescription :: "Feed \<Rightarrow> string \<Rightarrow> Feed" where
  "SetDescription f description = f\<lparr>Description := description\<rparr>"

definition SetLanguage :: "Feed \<Rightarrow> string \<Rightarrow> Feed" where
  "SetLanguage f language = f\<lparr>Language := language\<rparr>"

subsection \<open>JSON\<close>

text \<open>
  \<open>encoding/json\<close> is not part of the package: its functions are parameters of the
  model.  \<open>marshalIndent\<close> stands for \<open>json.MarshalIndent(f, "", "  ")\<close> and
  \<open>unmarshal\<close> for \<open>json.Unmarshal\<close> into a \<open>Feed\<close>; both can fail, and then give
  the message of the library's error.
\<close>

definition ToJSON :: "(Feed \<Rightarrow> string + string) \<Rightarrow> Feed \<Rightarrow> error + string" where
  "ToJSON marshalIndent f =
     (case marshalIndent f of Inl msg \<Rightarrow> Inl (LibError msg) | Inr data \<Rightarrow> Inr data)"

definition FromJSON :: "(string \<Rightarrow> string + Feed) \<Rightarrow> string \<Rightarrow> error + Feed" where
  "FromJSON unmarshal data =
     (case unmarshal data of
        Inl msg \<Rightarrow> Inl (Errorf ''failed to parse JSON'' (LibError msg))
      | Inr feed \<Rightarrow>
          (case Feed_Validate feed of
             Some err \<Rightarrow> Inl (Errorf ''validation failed'' err)
           | None \<Rightarrow> Inr feed))"

section \<open>Serving a feed over HTTP\<close>

text \<open>
  An \<open>http.ResponseWriter\<close> is its header, the status code (0 until
  \<open>WriteHeader\<close> has run) and the body written so far.  A header is an association
  list from names to values; the package uses each name in one spelling only, so the
  canonical form of the name is left out.
\<close>

type_synonym Header = "(string \<times> string) list"

record Request =
  RequestHeader :: Header

record ResponseWriter =
  header :: Header
  statusCode :: nat
  body :: string

definition newResponseWriter :: ResponseWriter where
  "newResponseWriter = \<lparr>header = [], statusCode = 0, body = []\<rparr>"

fun Header_Set :: "string \<Rightarrow> string \<Rightarrow> Header \<Rightarrow> Header" where
  "Header_Set k v [] = [(k, v)]"
| "Header_Set k v ((k', v') # h) =
     (if k' = k then (k, v) # h else (k', v') # Header_Set k v h)"

definition Header_Del :: "string \<Rightarrow> Header \<Rightarrow> Header" where
  "Header_Del k h = filter (\<lambda>kv. fst kv \<noteq> k) h"

definition Header_Get :: "Header \<Rightarrow> string \<Rightarrow> string" where
  \<comment> \<open>the value stored under the name, the empty string if there is none\<close>
  "Header_Get h k = (case map_of h k of None \<Rightarrow> [] | Some v \<Rightarrow> v)"

definition setHeader :: "string \<Rightarrow> string \<Rightarrow> ResponseWriter \<Rightarrow> ResponseWriter" where
  \<comment> \<open>\<open>w.Header().Set(k, v)\<close>\<close>
  "setHeader k v w = w\<lparr>header := Header_Set k v (header w)\<rparr>"

definition WriteHeader :: "nat \<Rightarrow> ResponseWriter \<Rightarrow> ResponseWriter" where
  \<comment> \<open>only the first call sets the status\<close>
  "WriteHeader code w = (if statusCode w = 0 then w\<lparr>statusCode := code\<rparr> else w)"

definition Write :: "string \<Rightarrow> ResponseWriter \<Rightarrow> ResponseWriter" where
  \<comment> \<open>a write before \<open>WriteHeader\<close> sends status 200 first\<close>
  "Write data w = (let w' = WriteHeader 200 w in w'\<lparr>body := body w' @ data\<rparr>)"

definition StatusOK :: nat where "StatusOK = 200"
definition StatusNotModified :: nat where "StatusNotModified = 304"
definition StatusInternalServerError :: nat where "StatusInternalServerError = 500"
definition StatusServiceUnavailable :: nat where "StatusServiceUnavailable = 503"

definition http_Error :: "ResponseWriter \<Rightarrow> string \<Rightarrow> nat \<Rightarrow> ResponseWriter" where
  \<comment> \<open>\<open>http.Error\<close>: a plain-text reply with the message and a line break\<close>
  "http_Error w msg code =
     (let w1 = w\<lparr>header := Header_Del ''Content-Length'' (header w)\<rparr>;
          w2 = setHeader ''Content-Type'' ''text/plain; charset=utf-8'' w1;
          w3 = setHeader ''X-Content-Type-Options'' ''nosniff'' w2;
          w4 = WriteHeader code w3
      in Write (msg @ [CHR 0x0A]) w4)"

definition etagOf :: "Time \<Rightarrow> nat \<Rightarrow> string" where
  \<comment> \<open>\<open>fmt.Sprintf(`"beam-%d-%d"`, lastUpdated.Unix(), itemCount)\<close>\<close>
  "etagOf lastUpdated itemCount =
     [CHR 0x22] @ ''beam-'' @ itoa (Unix lastUpdated) @ ''-'' @ itoa (int itemCount) @ [CHR 0x22]"

text \<open>
  \<open>Feed.ServeHTTP\<close>.  \<open>formatHTTP\<close> stands for \<open>Time.Format(http.TimeFormat)\<close>.
  The method reads \<open>f.LastUpdated.Unix()\<close> without a nil check: on a feed without
  \<open>LastUpdated\<close> that is a nil-pointer dereference, the outcome \<open>Panic\<close>.
\<close>

definition Feed_ServeHTTP ::
  "(Feed \<Rightarrow> string + string) \<Rightarrow> (Time \<Rightarrow> string) \<Rightarrow> Feed \<Rightarrow> ResponseWriter \<Rightarrow> Request
     \<Rightarrow> ResponseWriter outcome" where
  "Feed_ServeHTTP marshalIndent formatHTTP f w r =
     (let w1 = setHeader ''Content-Type'' ContentTypeJSON w;
          w2 = setHeader ''Cache-Control'' DefaultCacheControl w1;
          w3 = (case LastUpdated f of
                  Some t \<Rightarrow> setHeader ''Last-Modified'' (formatHTTP t) w2
                | None \<Rightarrow> w2)
      in case LastUpdated f of
           None \<Rightarrow> Panic ''invalid memory address or nil pointer dereference''
         | Some t \<Rightarrow>
             let etag = etagOf t (length (elems (Items f)));
                 w4 = setHeader ''ETag'' etag w3
             in if Header_Get (RequestHeader r) ''If-None-Match'' = etag
                then Return (WriteHeader StatusNotModified w4)
                else (case ToJSON marshalIndent f of
                        Inl err \<Rightarrow>
                          Return (http_Error w4 ''Internal server error'' StatusInternalServerError)
                      | Inr data \<Rightarrow> Return (Write data (WriteHeader StatusOK w4))))"

section \<open>Integrity hash\<close>

text \<open>
  \<open>marshal\<close> stands for \<open>json.Marshal\<close> on the entry slice and \<open>sum256\<close> for
  \<open>sha256.Sum256\<close>; \<open>hex.EncodeToString\<close> is written out.
\<close>

definition hexDigit :: "nat \<Rightarrow> char" where
  "hexDigit d = ''0123456789abcdef'' ! d"

definition EncodeToString :: "string \<Rightarrow> string" where
  "EncodeToString bs =
     concat (map (\<lambda>c. [hexDigit (of_char c div 16), hexDigit (of_char c mod 16)]) bs)"

definition hexValue :: "char \<Rightarrow> nat" where
  \<comment> \<open>the position of a character among the hexadecimal digits\<close>
  "hexValue c = length (takeWhile (\<lambda>x. x \<noteq> c) ''0123456789abcdef'')"

definition ComputeFeedHash ::
  "(Entry slice \<Rightarrow> string + string) \<Rightarrow> (string \<Rightarrow> string) \<Rightarrow> Feed \<Rightarrow> error + string" where
  "ComputeFeedHash marshal sum256 f =
     (case marshal (Items f) of
        Inl msg \<Rightarrow> Inl (LibError msg)
      | Inr data \<Rightarrow> Inr (EncodeToString (sum256 data)))"

definition hashMismatch :: error where
  "hashMismatch = ErrorString ''feed hash mismatch: data may not be trustworthy''"

text \<open>
  \<open>ValidateFeedHash\<close> has a pointer receiver; the model hands the feed back next to
  the error, so that what the method does to the feed is part of its result.
\<close>

definition ValidateFeedHash ::
  "(Entry slice \<Rightarrow> string + string) \<Rightarrow> (string \<Rightarrow> string) \<Rightarrow> Feed \<Rightarrow> string
     \<Rightarrow> Feed \<times> error option" where
  "ValidateFeedHash marshal sum256 f expectedHash =
     (case ComputeFeedHash marshal sum256 f of
        Inl err \<Rightarrow> (f, Some err)
      | Inr actualHash \<Rightarrow>
          if actualHash \<noteq> expectedHash then (f, Some hashMismatch) else (f, None))"

section \<open>The aggregator\<close>

record FeedSource =
  SourceURL :: string
  SourceName :: string
  SourceDescription :: string
  LastFetch :: Time
  Status :: string
  ErrorMsg :: string

text \<open>
  \<open>AggregatedFeed\<close> is a pointer that may be nil; \<open>fetchTimeout\<close> is a
  \<open>time.Duration\<close> in nanoseconds.  The lock \<open>mu\<close> serialises whole method calls
  and has no field in the model: each function below is one critical section.
\<close>

record Aggregator =
  Sources :: "FeedSource list"
  AggregatedFeed :: "Feed option"
  fetchTimeout :: int

definition NewAggregator :: "Time \<Rightarrow> string \<Rightarrow> string \<Rightarrow> Aggregator" where
  "NewAggregator now title feedURL =
     \<lparr>Sources = [], AggregatedFeed = Some (NewFeed now title feedURL),
      fetchTimeout = 30 * 1000000000\<rparr>"

definition AddSource :: "Aggregator \<Rightarrow> string \<Rightarrow> string \<Rightarrow> string \<Rightarrow> Aggregator" where
  "AddSource a url name description =
     a\<lparr>Sources := Sources a @
        [\<lparr>SourceURL = url, SourceName = name, SourceDescription = description,
          LastFetch = zeroTime, Status = ''new'', ErrorMsg = []\<rparr>]\<rparr>"

subsection \<open>Fetching one source\<close>

text \<open>
  What \<open>client.Get(url)\<close> and the JSON decoder hand to \<open>fetchFeedWithTimeout\<close>:
  either the request failed (a timeout is one such failure), or a response came with a
  status code, a status text and a body that the decoder turns into a feed or rejects.
  Failures of the libraries carry the message of their error.
\<close>

datatype HttpResult =
    RequestFailed string
  | Response nat string "string + Feed"

definition fetchFeedWithTimeout :: "HttpResult \<Rightarrow> error + Feed" where
  "fetchFeedWithTimeout res =
     (case res of
        RequestFailed msg \<Rightarrow> Inl (Errorf ''HTTP request failed'' (LibError msg))
      | Response code status decoded \<Rightarrow>
          if code \<noteq> StatusOK
          then Inl (ErrorString (''HTTP error: '' @ itoa (int code) @ '' '' @ status))
          else (case decoded of
                  Inl msg \<Rightarrow> Inl (Errorf ''JSON decode error'' (LibError msg))
                | Inr feed \<Rightarrow>
                    (case Feed_Validate feed of
                       Some err \<Rightarrow> Inl (Errorf ''feed validation error'' err)
                     | None \<Rightarrow> Inr feed)))"

subsection \<open>One aggregation cycle\<close>

record fetchResult =
  index :: nat
  fetched :: "error + Feed"

definition enrich :: "string \<Rightarrow> Entry \<Rightarrow> Entry" where
  \<comment> \<open>the copy of an entry that names its source in the summary\<close>
  "enrich name entry =
     (if Summary entry \<noteq> []
      then entry\<lparr>Summary := ''['' @ name @ ''] '' @ Summary entry\<rparr>
      else entry\<lparr>Summary := ''From '' @ name\<rparr>)"

text \<open>
  The receive loop of \<open>FetchAllFeeds\<close>, over the results in the order in which they
  arrive on the channel.  \<open>now i\<close> is the clock reading of the \<open>i\<close>-th call of
  \<open>time.Now\<close> in the cycle.  Indexing \<open>a.Sources\<close> out of range panics.
\<close>

fun collect ::
  "(nat \<Rightarrow> Time) \<Rightarrow> nat \<Rightarrow> fetchResult list \<Rightarrow> FeedSource list \<Rightarrow> Entry list \<Rightarrow> nat
     \<Rightarrow> (FeedSource list \<times> Entry list \<times> nat) outcome" where
  "collect now i [] sources allEntries successCount =
     Return (sources, allEntries, successCount)"
| "collect now i (result # rest) sources allEntries successCount =
     (if length sources \<le> index result then Panic ''index out of range''
      else
        let src = (sources ! index result)\<lparr>LastFetch := now i\<rparr>
        in case fetched result of
             Inl err \<Rightarrow>
               collect now (Suc i) rest
                 (sources[index result := src\<lparr>Status := ''error'', ErrorMsg := Error err\<rparr>])
                 allEntries successCount
           | Inr feed \<Rightarrow>
               collect now (Suc i) rest
                 (sources[index result := src\<lparr>Status := ''active'', ErrorMsg := []\<rparr>])
                 (allEntries @ map (enrich (SourceName src)) (elems (Items feed)))
                 (Suc successCount))"

fun addEntries :: "(nat \<Rightarrow> Time) \<Rightarrow> nat \<Rightarrow> Feed \<Rightarrow> Entry list \<Rightarrow> Feed" where
  \<comment> \<open>the loop that calls \<open>AddEntry\<close> for each entry; every call reads the clock\<close>
  "addEntries now i f [] = f"
| "addEntries now i f (entry # rest) = addEntries now (Suc i) (AddEntry (now i) f entry) rest"

definition publishedAt :: "Entry \<Rightarrow> int" where
  \<comment> \<open>the instant at which an entry was published\<close>
  "publishedAt e = unixNano (Published e)"

definition byPublished :: "Entry \<Rightarrow> Entry \<Rightarrow> bool" where
  \<comment> \<open>the \<open>less\<close> function handed to \<open>sort.Slice\<close>\<close>
  "byPublished x y \<longleftrightarrow> After (Published x) (Published y)"

definition maxEntries :: nat where
  "maxEntries = 100"

text \<open>
  \<open>FetchAllFeeds\<close>.  The inputs that come from outside the package are parameters:
  \<^item> \<open>sortSlice\<close> stands for \<open>sort.Slice\<close>, which the package calls with
    \<open>byPublished\<close>;
  \<^item> \<open>now\<close> is the clock;
  \<^item> \<open>http i\<close> is what the goroutine started for source \<open>i\<close> gets from the network;
  \<^item> \<open>arrival\<close> lists the source indices in the order in which the goroutines put
    their results on the channel.  Each goroutine sends once and the channel holds
    \<open>len(a.Sources)\<close> results, so \<open>arrival\<close> is a permutation of the indices.
  The result is the aggregator after the call and the returned \<open>error\<close>.  Printing to
  standard output is left out.
\<close>

definition FetchAllFeeds ::
  "((Entry \<Rightarrow> Entry \<Rightarrow> bool) \<Rightarrow> Entry list \<Rightarrow> Entry list) \<Rightarrow> (nat \<Rightarrow> Time) \<Rightarrow>
   (nat \<Rightarrow> HttpResult) \<Rightarrow> nat list \<Rightarrow> Aggregator \<Rightarrow> (Aggregator \<times> error option) outcome" where
  "FetchAllFeeds sortSlice now http arrival a =
     (let n = length (Sources a);
          results = map (\<lambda>i. \<lparr>index = i, fetched = fetchFeedWithTimeout (http i)\<rparr>) arrival
      in case collect now 0 results (Sources a) [] 0 of
           Panic msg \<Rightarrow> Panic msg
         | Return (sources, allEntries, successCount) \<Rightarrow>
             let sorted = sortSlice byPublished allEntries;
                 capped = (if length sorted > maxEntries then take maxEntries sorted else sorted)
             in case AggregatedFeed a of
                  None \<Rightarrow> Panic ''invalid memory address or nil pointer dereference''
                | Some old \<Rightarrow>
                    let f0 = NewFeed (now n) (Title old) (FeedURL old);
                        f1 = SetDescription f0
                               (''Aggregated content from '' @ itoa (int n) @ '' sources'');
                        f2 = SetLanguage f1 ''en-US'';
                        f3 = addEntries now (Suc n) f2 capped
                    in Return (a\<lparr>Sources := sources, AggregatedFeed := Some f3\<rparr>, None))"

definition arrivalOK :: "nat \<Rightarrow> nat list \<Rightarrow> bool" where
  \<comment> \<open>every source index arrives exactly once\<close>
  "arrivalOK n arrival \<longleftrightarrow> sort arrival = [0..<n]"

definition sortSliceOK :: "((Entry \<Rightarrow> Entry \<Rightarrow> bool) \<Rightarrow> Entry list \<Rightarrow> Entry list) \<Rightarrow> bool" where
  \<comment> \<open>what \<open>sort.Slice\<close> promises for \<open>byPublished\<close>: the same elements, none before
      an element that is less than it; it does not promise to keep equal elements in order\<close>
  "sortSliceOK sortSlice \<longleftrightarrow>
     (\<forall>xs. mset (sortSlice byPublished xs) = mset xs \<and>
           sorted_wrt (\<lambda>x y. \<not> byPublished y x) (sortSlice byPublished xs))"

text \<open>
  Names for what the theorems about a cycle talk about: whether the fetch of source
  \<open>i\<close> failed, the entries a cycle collects (those of the successful sources, in order
  of arrival, each marked with the name of its source), and whether a list keeps the
  entries of equal timestamp in the order of another list.
\<close>

definition failed :: "(nat \<Rightarrow> HttpResult) \<Rightarrow> nat \<Rightarrow> bool" where
  "failed http i = (case fetchFeedWithTimeout (http i) of Inl err \<Rightarrow> True | Inr feed \<Rightarrow> False)"

definition entriesFrom :: "(nat \<Rightarrow> HttpResult) \<Rightarrow> FeedSource list \<Rightarrow> nat \<Rightarrow> Entry list" where
  "entriesFrom http sources i =
     (case fetchFeedWithTimeout (http i) of
        Inl err \<Rightarrow> []
      | Inr feed \<Rightarrow> map (enrich (SourceName (sources ! i))) (elems (Items feed)))"

definition collected :: "(nat \<Rightarrow> HttpResult) \<Rightarrow> nat list \<Rightarrow> Aggregator \<Rightarrow> Entry list" where
  "collected http arrival a = concat (map (entriesFrom http (Sources a)) arrival)"


definition fetchedSource :: "Time \<Rightarrow> error + Feed \<Rightarrow> FeedSource \<Rightarrow> FeedSource" where
  \<comment> \<open>a source after the receive loop has handled its result at clock reading \<open>t\<close>\<close>
  "fetchedSource t res src =
     (case res of
        Inl err \<Rightarrow> src\<lparr>LastFetch := t, Status := ''error'', ErrorMsg := Error err\<rparr>
      | Inr feed \<Rightarrow> src\<lparr>LastFetch := t, Status := ''active'', ErrorMsg := []\<rparr>)"

text \<open>
  The source list after the receive loop, and the entries one result adds, written as
  functions of their own for the proofs about \<open>collect\<close>.
\<close>

fun updateSources :: "(nat \<Rightarrow> Time) \<Rightarrow> nat \<Rightarrow> fetchResult list \<Rightarrow> FeedSource list \<Rightarrow> FeedSource list" where
  "updateSources now i [] sources = sources"
| "updateSources now i (result # rest) sources =
     updateSources now (Suc i) rest
       (sources[index result := fetchedSource (now i) (fetched result) (sources ! index result)])"

definition resultEntries :: "FeedSource list \<Rightarrow> fetchResult \<Rightarrow> Entry list" where
  "resultEntries sources result =
     (case fetched result of
        Inl err \<Rightarrow> []
      | Inr feed \<Rightarrow> map (enrich (SourceName (sources ! index result))) (elems (Items feed)))"

text \<open>
  The results on the channel, and the feed a cycle publishes, as the theorems state it:
  the first \<open>maxEntries\<close> of the sorted collected entries in a new feed that takes title
  and URL from the old one; the last \<open>AddEntry\<close> sets \<open>LastUpdated\<close>.
\<close>

definition publishedFeed ::
  "((Entry \<Rightarrow> Entry \<Rightarrow> bool) \<Rightarrow> Entry list \<Rightarrow> Entry list) \<Rightarrow> (nat \<Rightarrow> Time) \<Rightarrow>
   (nat \<Rightarrow> HttpResult) \<Rightarrow> nat list \<Rightarrow> Aggregator \<Rightarrow> Feed \<Rightarrow> Feed" where
  "publishedFeed sortSlice now http arrival a old =
     (let n = length (Sources a);
          items = take maxEntries (sortSlice byPublished (collected http arrival a))
      in \<lparr>FeedVersion = Version, Title = Title old,
          Description = ''Aggregated content from '' @ itoa (int n) @ '' sources'',
          HomePageURL = [], FeedURL = FeedURL old, Language = ''en-US'',
          FeedAuthor = None,
          LastUpdated = Some (UTC (now (n + length items))),
          Items = Slice items\<rparr>)"

definition resultsOf :: "(nat \<Rightarrow> HttpResult) \<Rightarrow> nat list \<Rightarrow> fetchResult list" where
  "resultsOf http arrival =
     map (\<lambda>i. \<lparr>index = i, fetched = fetchFeedWithTimeout (http i)\<rparr>) arrival"

subsection \<open>Statistics and serving\<close>

record Stats =
  total_sources :: nat
  active_sources :: nat
  error_sources :: nat
  total_entries :: nat
  last_updated :: "Time option"

definition GetStats :: "Aggregator \<Rightarrow> Stats outcome" where
  "GetStats a =
     (let activeCount = length (filter (\<lambda>s. Status s = ''active'') (Sources a));
          errorCount = length (filter (\<lambda>s. Status s = ''error'') (Sources a));
          totalEntries = (case AggregatedFeed a of None \<Rightarrow> 0 | Some f \<Rightarrow> length (elems (Items f)))
      in case AggregatedFeed a of
           None \<Rightarrow> Panic ''invalid memory address or nil pointer dereference''
         | Some f \<Rightarrow>
             Return \<lparr>total_sources = length (Sources a), active_sources = activeCount,
                     error_sources = errorCount, total_entries = totalEntries,
                     last_updated = LastUpdated f\<rparr>)"

definition Aggregator_ServeHTTP ::
  "(Feed \<Rightarrow> string + string) \<Rightarrow> (Time \<Rightarrow> string) \<Rightarrow> Aggregator \<Rightarrow> ResponseWriter \<Rightarrow> Request
     \<Rightarrow> ResponseWriter outcome" where
  "Aggregator_ServeHTTP marshalIndent formatHTTP a w r =
     (case AggregatedFeed a of
        None \<Rightarrow> Return (http_Error w ''Aggregated feed not available'' StatusServiceUnavailable)
      | Some f \<Rightarrow> Feed_ServeHTTP marshalIndent formatHTTP f w r)"

subsection \<open>Reading an outcome\<close>

definition statusOf :: "ResponseWriter outcome \<Rightarrow> nat option" where
  \<comment> \<open>the status code of the response; none when the handler panicked\<close>
  "statusOf res = (case res of Panic msg \<Rightarrow> None | Return w \<Rightarrow> Some (statusCode w))"

definition bodyOf :: "ResponseWriter outcome \<Rightarrow> string option" where
  "bodyOf res = (case res of Panic msg \<Rightarrow> None | Return w \<Rightarrow> Some (body w))"

definition headerOf :: "ResponseWriter outcome \<Rightarrow> string \<Rightarrow> string option" where
  "headerOf res k = (case res of Panic msg \<Rightarrow> None | Return w \<Rightarrow> map_of (header w) k)"

definition jsonHeaders :: "string \<Rightarrow> string \<Rightarrow> Header" where
  \<comment> \<open>the header of a reply of \<open>Feed.ServeHTTP\<close> to a feed with \<open>LastUpdated\<close>\<close>
  "jsonHeaders lastModified etag =
     [(''Content-Type'', ContentTypeJSON), (''Cache-Control'', DefaultCacheControl),
      (''Last-Modified'', lastModified), (''ETag'', etag)]"



section \<open>Sample values\<close>

text \<open>Concrete entries, feeds and sources on which the theorems below are run.\<close>

definition t1 :: Time where
  \<comment> \<open>2025-01-01T10:00:00Z\<close>
  "t1 = \<lparr>unixNano = 1735725600 * 1000000000, zoneOffset = 0\<rparr>"

definition t2 :: Time where
  \<comment> \<open>2025-01-02T10:00:00Z\<close>
  "t2 = \<lparr>unixNano = 1735812000 * 1000000000, zoneOffset = 0\<rparr>"

definition a1 :: Entry where
  "a1 = NewEntry ''a1'' ''First post'' ''https://a.example/1'' t1"

definition a2 :: Entry where
  "a2 = SetSummary (NewEntry ''a2'' ''Second post'' ''https://a.example/2'' t2) ''news''"

definition a1again :: Entry where
  \<comment> \<open>a second entry with the identifier of \<open>a1\<close>\<close>
  "a1again = NewEntry ''a1'' ''First post, again'' ''https://a.example/1b'' t2"

definition untitled :: Entry where
  \<comment> \<open>an entry that \<open>Entry.Validate\<close> rejects: the title is blank\<close>
  "untitled = NewEntry ''u'' '' '' ''https://a.example/u'' t1"

definition feedOf :: "Entry list \<Rightarrow> Feed" where
  "feedOf es = (NewFeed t2 ''Feed A'' ''https://a.example/feed.json'')\<lparr>Items := Slice es\<rparr>"

definition feedDup :: Feed where
  "feedDup = feedOf [a1, a2, a1again]"

definition feedDupOldVersion :: Feed where
  "feedDupOldVersion = feedDup\<lparr>FeedVersion := ''0.9''\<rparr>"

definition feedDupAfterInvalid :: Feed where
  "feedDupAfterInvalid = feedOf [a1, untitled, a1again]"

definition a1bad :: Entry where
  \<comment> \<open>repeats the identifier of \<open>a1\<close> and is itself invalid: the title is blank\<close>
  "a1bad = NewEntry ''a1'' '' '' ''https://a.example/1c'' t2"

definition feedDupInvalid :: Feed where
  "feedDupInvalid = feedOf [a1, a1bad]"

text \<open>
  Stand-ins for the library functions that the model takes as parameters.  The theorems
  hold for every choice; these are only used to run them.
\<close>

definition sampleMarshalIndent :: "Feed \<Rightarrow> string + string" where
  "sampleMarshalIndent f =
     Inr (''feed '' @ Title f @ '' with '' @ itoa (int (length (elems (Items f)))) @ '' items'')"

definition sampleMarshal :: "Entry slice \<Rightarrow> string + string" where
  "sampleMarshal s =
     (case s of
        NilSlice \<Rightarrow> Inr ''null''
      | Slice es \<Rightarrow> Inr (''['' @ concat (map (\<lambda>e. ID e @ '';'') es) @ '']''))"

definition sampleSum256 :: "string \<Rightarrow> string" where
  "sampleSum256 d = take 4 (rev d @ replicate 4 (CHR 0x00))"

definition sampleFormat :: "Time \<Rightarrow> string" where
  "sampleFormat t = itoa (Unix t)"

definition feedA :: Feed where
  "feedA = feedOf [a1, a2]"

definition yearInRange :: "Time \<Rightarrow> bool" where
  \<comment> \<open>the year on the wall clock of the zone lies in 0..9999, the range that
      \<open>Time.MarshalJSON\<close> accepts\<close>
  "yearInRange t \<longleftrightarrow>
     - 62167219200 * 1000000000 \<le> unixNano t + zoneOffset t * 1000000000
     \<and> unixNano t + zoneOffset t * 1000000000 < 253402300800 * 1000000000"

definition checkedMarshalIndent :: "Feed \<Rightarrow> string + string" where
  \<comment> \<open>a stand-in that fails where \<open>json.MarshalIndent\<close> fails on a feed: on a
      timestamp that \<open>Time.MarshalJSON\<close> rejects\<close>
  "checkedMarshalIndent f =
     (if (case LastUpdated f of None \<Rightarrow> True | Some t \<Rightarrow> yearInRange t)
         \<and> list_all (\<lambda>e. yearInRange (Published e)
               \<and> (case Updated e of None \<Rightarrow> True | Some t \<Rightarrow> yearInRange t)) (elems (Items f))
      then sampleMarshalIndent f
      else Inl ''json: error calling MarshalJSON for type *time.Time: Time.MarshalJSON: year outside of range [0,9999]'')"

definition farFuture :: Time where
  \<comment> \<open>10000-01-01T00:00:00Z\<close>
  "farFuture = \<lparr>unixNano = 253402300800 * 1000000000, zoneOffset = 0\<rparr>"

definition feedFarFuture :: Feed where
  \<comment> \<open>\<open>feedA\<close>, last updated at 10000-01-01T00:00:00Z\<close>
  "feedFarFuture = feedA\<lparr>LastUpdated := Some farFuture\<rparr>"

definition feedNilItems :: Feed where
  \<comment> \<open>\<open>feedA\<close> with a nil \<open>Items\<close>, as decoded from a document without \<open>items\<close>\<close>
  "feedNilItems = feedA\<lparr>Items := NilSlice\<rparr>"

definition feedNoItems :: Feed where
  \<comment> \<open>\<open>feedA\<close> with an empty \<open>Items\<close>\<close>
  "feedNoItems = feedA\<lparr>Items := Slice []\<rparr>"

definition feedNoDate :: Feed where
  \<comment> \<open>what decoding a document without \<open>last_updated\<close> gives\<close>
  "feedNoDate = feedA\<lparr>LastUpdated := None\<rparr>"

definition sampleUnmarshal :: "string \<Rightarrow> string + Feed" where
  "sampleUnmarshal d =
     (if d = ''no-date'' then Inr feedNoDate else Inl ''unexpected end of JSON input'')"

definition noHeaders :: Request where
  "noHeaders = \<lparr>RequestHeader = []\<rparr>"

definition ifNoneMatch :: "string \<Rightarrow> Request" where
  "ifNoneMatch etag = \<lparr>RequestHeader = [(''If-None-Match'', etag)]\<rparr>"

definition freshAggregator :: Aggregator where
  "freshAggregator = NewAggregator t1 ''Tech News Aggregator'' ''http://localhost:8181/feed.json''"

text \<open>
  Two insertion sorts driven by the comparison \<open>lt\<close>.  Both return the elements in an order that
  \<open>sort.Slice\<close> may return.  \<open>insertionSort\<close> takes the elements from the left and
  keeps equal elements in their order; \<open>insertionSortFromRight\<close> takes them from the
  right and turns the order of equal elements around.
\<close>

fun insertLess :: "('a \<Rightarrow> 'a \<Rightarrow> bool) \<Rightarrow> 'a \<Rightarrow> 'a list \<Rightarrow> 'a list" where
  "insertLess lt x [] = [x]"
| "insertLess lt x (y # ys) =
     (if lt x y then x # y # ys else y # insertLess lt x ys)"

definition insertionSort :: "('a \<Rightarrow> 'a \<Rightarrow> bool) \<Rightarrow> 'a list \<Rightarrow> 'a list" where
  "insertionSort lt xs = foldl (\<lambda>acc x. insertLess lt x acc) [] xs"




definition sampleClock :: "nat \<Rightarrow> Time" where
  \<comment> \<open>a clock that advances by one second per reading, from 2025-01-03T10:00:00Z, in a
      zone two hours east of UTC\<close>
  "sampleClock i = \<lparr>unixNano = (1735898400 + int i) * 1000000000, zoneOffset = 7200\<rparr>"

definition twoSources :: Aggregator where
  "twoSources =
     AddSource
       (AddSource freshAggregator ''http://localhost:8081/feed.json'' ''A'' ''first source'')
       ''http://localhost:8082/feed.json'' ''B'' ''second source''"

definition oneSource :: Aggregator where
  "oneSource = AddSource freshAggregator ''http://localhost:8081/feed.json'' ''A'' ''first source''"

definition httpAB :: "nat \<Rightarrow> HttpResult" where
  \<comment> \<open>source 0 answers with \<open>feedA\<close>, every other request times out\<close>
  "httpAB i =
     (if i = 0 then Response 200 ''200 OK'' (Inr feedA)
      else RequestFailed ''context deadline exceeded'')"


definition manyEntries :: "Entry list" where
  \<comment> \<open>120 valid entries with different identifiers and timestamps\<close>
  "manyEntries =
     map (\<lambda>i. NewEntry (''e'' @ itoa (int i)) ''Post'' ''https://a.example/p'' (t1\<lparr>unixNano := unixNano t1 + int i\<rparr>))
       [0..<120]"

definition httpMany :: "nat \<Rightarrow> HttpResult" where
  "httpMany i = Response 200 ''200 OK'' (Inr (feedOf manyEntries))"


section \<open>Properties of the content model\<close>

declare itoa_nat.simps [simp del]
declare FieldsFrom.simps [simp del]
declare TrimLeftSpace.simps [simp del]
declare TrimRightSpace.simps [simp del]
declare replaceTags.simps [simp del]

subsection \<open>Reading time\<close>

text \<open>
  Claim C7, as stated, promises an estimate of at least one minute for every content,
  the empty one included.  \<open>CalculateReadingTime\<close> returns 0 for the empty string
  before it counts anything.
\<close>

theorem CalculateReadingTime_empty_counterexample:
  "\<not> 1 \<le> CalculateReadingTime []"
  by (simp add: CalculateReadingTime_def)

text \<open>
  Claim C7, amended: for the empty content the estimate is 0; for every other content it
  is the number of white-space separated words of the text with the tags replaced,
  divided by 200 and rounded down, but at least 1; and \<open>SetContent\<close> stores the content
  together with the estimate computed from it.
\<close>

theorem CalculateReadingTime_amended:
  "CalculateReadingTime content =
     (if content = [] then 0
      else max (int (length (Fields (replaceTags content))) div 200) 1)
   \<and> (content \<noteq> [] \<longrightarrow> 1 \<le> CalculateReadingTime content)
   \<and> Content (SetContent e content) = content
   \<and> ReadingTime (SetContent e content) = CalculateReadingTime content"
  by (simp add: CalculateReadingTime_def SetContent_def Let_def)

theorem CalculateReadingTime_amended_witness:
  "1 \<le> CalculateReadingTime ''<p>Hello <b>big</b> world</p>''
   \<and> length (Fields (replaceTags ''<p>Hello <b>big</b> world</p>'')) = 3
   \<and> ReadingTime (SetContent a1 ''<p>Hello <b>big</b> world</p>'') = 1"
proof -
  have ne: "''<p>Hello <b>big</b> world</p>'' \<noteq> []" by simp
  have words: "length (Fields (replaceTags ''<p>Hello <b>big</b> world</p>'')) = 3"
    by code_simp
  from CalculateReadingTime_amended [of "''<p>Hello <b>big</b> world</p>''" a1] ne words
  show ?thesis by simp
qed

subsection \<open>Duplicate identifiers\<close>

lemma validateItems_fails:
  "\<not> distinct (map ID es) \<or> (\<exists>e\<in>set es. lookupID ids (ID e))
   \<Longrightarrow> validateItems ids i es \<noteq> None"
proof (induction es arbitrary: ids i)
  case Nil
  then show ?case by simp
next
  case (Cons e es)
  show ?case
  proof (cases "Entry_Validate e")
    case (Some err)
    then show ?thesis by simp
  next
    case None
    show ?thesis
    proof (cases "lookupID ids (ID e)")
      case True
      with None show ?thesis by simp
    next
      case False
      have "\<not> distinct (map ID es) \<or> (\<exists>x\<in>set es. lookupID (ids(ID e \<mapsto> True)) (ID x))"
        using Cons.prems False by (auto simp: lookupID_def)
      then have "validateItems (ids(ID e \<mapsto> True)) (Suc i) es \<noteq> None"
        by (rule Cons.IH)
      with None False show ?thesis by simp
    qed
  qed
qed

lemma validateItems_first_duplicate:
  "distinct (map ID pre) \<Longrightarrow> \<forall>e\<in>set pre. \<not> lookupID ids (ID e) \<Longrightarrow>
   \<forall>e\<in>set pre. Entry_Validate e = None \<Longrightarrow> Entry_Validate d = None \<Longrightarrow>
   lookupID ids (ID d) \<or> ID d \<in> ID ` set pre \<Longrightarrow>
   validateItems ids i (pre @ d # rest)
     = Some (NewError ''items'' (''duplicate entry ID: '' @ ID d))"
proof (induction pre arbitrary: ids i)
  case Nil
  then show ?case by simp
next
  case (Cons e pre)
  have fresh: "\<forall>x\<in>set pre. \<not> lookupID (ids(ID e \<mapsto> True)) (ID x)"
  proof
    fix x assume x: "x \<in> set pre"
    then have "ID x \<in> ID ` set pre" by (rule imageI)
    moreover have "ID e \<notin> ID ` set pre" using Cons.prems(1) by simp
    ultimately have "ID x \<noteq> ID e" by auto
    moreover have "\<not> lookupID ids (ID x)" using Cons.prems(2) x by simp
    ultimately show "\<not> lookupID (ids(ID e \<mapsto> True)) (ID x)" by (simp add: lookupID_def)
  qed
  have seen: "lookupID (ids(ID e \<mapsto> True)) (ID d) \<or> ID d \<in> ID ` set pre"
    using Cons.prems(5) by (auto simp: lookupID_def)
  have "validateItems (ids(ID e \<mapsto> True)) (Suc i) (pre @ d # rest)
        = Some (NewError ''items'' (''duplicate entry ID: '' @ ID d))"
  proof (rule Cons.IH)
    show "distinct (map ID pre)" using Cons.prems(1) by simp
    show "\<forall>e\<in>set pre. Entry_Validate e = None" using Cons.prems(3) by simp
  qed (fact fresh Cons.prems(4) seen)+
  then show ?case using Cons.prems(2,3) by simp
qed

lemma firstDuplicate_exists:
  assumes "\<not> distinct (map ID items)"
  shows "\<exists>pre d rest. firstDuplicate items pre d rest"
proof -
  from assms obtain xs y ys where y: "y \<in> set xs" and d: "distinct xs"
      and m: "map ID items = xs @ y # ys"
    by (auto simp: not_distinct_conv_prefix)
  from m obtain pre tl where items: "items = pre @ tl" and pre: "map ID pre = xs"
      and tl: "map ID tl = y # ys"
    by (auto simp: map_eq_append_conv)
  from tl obtain d rest where tl': "tl = d # rest" and dy: "ID d = y"
    by (auto simp: map_eq_Cons_conv)
  have "ID d \<in> ID ` set pre" using y pre dy by (metis image_set)
  with items tl' pre d show ?thesis
    unfolding firstDuplicate_def by blast
qed

lemma validateItems_first_invalid:
  "distinct (map ID xs) \<Longrightarrow> \<forall>e\<in>set xs. \<not> lookupID ids (ID e) \<Longrightarrow>
   \<forall>e\<in>set xs. Entry_Validate e = None \<Longrightarrow> Entry_Validate x = Some err \<Longrightarrow>
   validateItems ids n (xs @ x # ys)
     = Some (Errorf (''entry '' @ itoa (int (n + length xs))) err)"
proof (induction xs arbitrary: ids n)
  case Nil
  then show ?case by simp
next
  case (Cons e xs)
  have fresh: "\<forall>z\<in>set xs. \<not> lookupID (ids(ID e \<mapsto> True)) (ID z)"
  proof
    fix z assume z: "z \<in> set xs"
    then have "ID z \<in> ID ` set xs" by (rule imageI)
    moreover have "ID e \<notin> ID ` set xs" using Cons.prems(1) by simp
    ultimately have "ID z \<noteq> ID e" by auto
    moreover have "\<not> lookupID ids (ID z)" using Cons.prems(2) z by simp
    ultimately show "\<not> lookupID (ids(ID e \<mapsto> True)) (ID z)" by (simp add: lookupID_def)
  qed
  have "validateItems (ids(ID e \<mapsto> True)) (Suc n) (xs @ x # ys)
        = Some (Errorf (''entry '' @ itoa (int (Suc n + length xs))) err)"
  proof (rule Cons.IH)
    show "distinct (map ID xs)" using Cons.prems(1) by simp
    show "\<forall>e\<in>set xs. Entry_Validate e = None" using Cons.prems(3) by simp
  qed (fact fresh Cons.prems(4))+
  then show ?case using Cons.prems(2,3) by simp
qed

lemma Feed_Validate_items:
  "feedChecksPass f \<Longrightarrow> Feed_Validate f = validateItems Map.empty 0 (elems (Items f))"
  by (auto simp: Feed_Validate_def feedChecksPass_def)

text \<open>
  Claim C8, as stated, says that for every feed with two entries of the same identifier
  the validation error refers to the field \<open>items\<close>.  \<open>Feed.Validate\<close> checks the
  version, the title and the URLs first, and each entry before it looks the entry's
  identifier up: a feed with a duplicate and an unsupported version fails on
  \<open>version\<close>, and a feed with an invalid entry in front of the duplicate fails with
  that entry's error, wrapped by \<open>fmt.Errorf\<close>.
\<close>

theorem Feed_Validate_duplicate_counterexample:
  "\<not> distinct (map ID (elems (Items feedDupOldVersion)))
   \<and> map_option errorField (Feed_Validate feedDupOldVersion) = Some (Some ''version'')
   \<and> \<not> distinct (map ID (elems (Items feedDupAfterInvalid)))
   \<and> Feed_Validate feedDupAfterInvalid
       = Some (Errorf ''entry 1'' (ValidationError ''title'' ''title is required''))"
  by code_simp

text \<open>
  Claim C8, amended: validating a feed whose items hold two entries with the same
  identifier fails, and the error is that of the first check of \<open>Feed.Validate\<close>
  that fails.  Let \<open>d\<close> be the first entry that repeats the identifier of an
  earlier one and \<open>pre\<close> the entries in front of it.  The error is, in this order:
  the \<open>version\<close> error when the version is not supported; the \<open>title\<close> error
  when the title is blank; the \<open>feed_url\<close> error when the feed URL is not valid; the
  \<open>home_page_url\<close> error when a home-page URL is given and not valid; when these
  four checks pass, the error of the first entry among \<open>pre\<close> and \<open>d\<close> that
  \<open>Entry.Validate\<close> rejects, wrapped as \<open>entry i: ...\<close> with the index
  \<open>i\<close> of that entry (this covers a repeating entry that is itself invalid, where
  \<open>i\<close> is the length of \<open>pre\<close>); and when all of these entries are valid, the
  \<open>ValidationError\<close> with field \<open>items\<close> that reports the identifier of
  \<open>d\<close>.
\<close>

theorem Feed_Validate_duplicate:
  "(\<not> distinct (map ID (elems (Items f))) \<longrightarrow>
      Feed_Validate f \<noteq> None \<and> (\<exists>pre d rest. firstDuplicate (elems (Items f)) pre d rest))
   \<and> (firstDuplicate (elems (Items f)) pre d rest \<longrightarrow>
        (FeedVersion f \<noteq> Version \<longrightarrow>
           Feed_Validate f = Some (ValidationError ''version''
             (''unsupported version: '' @ FeedVersion f @ '', expected: '' @ Version)))
      \<and> (FeedVersion f = Version \<and> TrimSpace (Title f) = [] \<longrightarrow>
           Feed_Validate f = Some (ValidationError ''title'' ''title is required''))
      \<and> (FeedVersion f = Version \<and> TrimSpace (Title f) \<noteq> [] \<and> \<not> isValidURL (FeedURL f) \<longrightarrow>
           Feed_Validate f = Some (ValidationError ''feed_url'' ''feed_url must be a valid URL''))
      \<and> (FeedVersion f = Version \<and> TrimSpace (Title f) \<noteq> [] \<and> isValidURL (FeedURL f)
            \<and> HomePageURL f \<noteq> [] \<and> \<not> isValidURL (HomePageURL f) \<longrightarrow>
           Feed_Validate f = Some (ValidationError ''home_page_url''
             ''home_page_url must be a valid URL''))
      \<and> (feedChecksPass f \<and> i \<le> length pre
            \<and> (\<forall>j<i. Entry_Validate ((pre @ [d]) ! j) = None)
            \<and> Entry_Validate ((pre @ [d]) ! i) = Some err \<longrightarrow>
           Feed_Validate f = Some (Errorf (''entry '' @ itoa (int i)) err))
      \<and> (feedChecksPass f \<and> (\<forall>e\<in>set (pre @ [d]). Entry_Validate e = None) \<longrightarrow>
           Feed_Validate f
             = Some (ValidationError ''items'' (''duplicate entry ID: '' @ ID d))))"
proof (intro conjI impI)
  assume "\<not> distinct (map ID (elems (Items f)))"
  then have "validateItems Map.empty 0 (elems (Items f)) \<noteq> None"
    by (simp add: validateItems_fails)
  then show "Feed_Validate f \<noteq> None"
    by (simp add: Feed_Validate_def)
next
  assume "\<not> distinct (map ID (elems (Items f)))"
  then show "\<exists>pre d rest. firstDuplicate (elems (Items f)) pre d rest"
    by (rule firstDuplicate_exists)
next
  assume "FeedVersion f \<noteq> Version"
  then show "Feed_Validate f = Some (ValidationError ''version''
             (''unsupported version: '' @ FeedVersion f @ '', expected: '' @ Version))"
    by (simp add: Feed_Validate_def NewError_def)
next
  assume "FeedVersion f = Version \<and> TrimSpace (Title f) = []"
  then show "Feed_Validate f = Some (ValidationError ''title'' ''title is required'')"
    by (simp add: Feed_Validate_def NewError_def)
next
  assume "FeedVersion f = Version \<and> TrimSpace (Title f) \<noteq> [] \<and> \<not> isValidURL (FeedURL f)"
  then show "Feed_Validate f
      = Some (ValidationError ''feed_url'' ''feed_url must be a valid URL'')"
    by (simp add: Feed_Validate_def NewError_def)
next
  assume "FeedVersion f = Version \<and> TrimSpace (Title f) \<noteq> [] \<and> isValidURL (FeedURL f)
            \<and> HomePageURL f \<noteq> [] \<and> \<not> isValidURL (HomePageURL f)"
  then show "Feed_Validate f = Some (ValidationError ''home_page_url''
             ''home_page_url must be a valid URL'')"
    by (simp add: Feed_Validate_def NewError_def)
next
  assume fd: "firstDuplicate (elems (Items f)) pre d rest"
    and h: "feedChecksPass f \<and> i \<le> length pre
            \<and> (\<forall>j<i. Entry_Validate ((pre @ [d]) ! j) = None)
            \<and> Entry_Validate ((pre @ [d]) ! i) = Some err"
  let ?pd = "pre @ [d]"
  have i: "i < length ?pd" using h by simp
  have split: "?pd = take i ?pd @ ?pd ! i # drop (Suc i) ?pd"
    using i by (rule id_take_nth_drop)
  have tk: "take i ?pd = take i pre" using h by simp
  have items: "elems (Items f) = take i pre @ ?pd ! i # (drop (Suc i) ?pd @ rest)"
  proof -
    have "elems (Items f) = ?pd @ rest" using fd by (simp add: firstDuplicate_def)
    also have "\<dots> = (take i ?pd @ ?pd ! i # drop (Suc i) ?pd) @ rest"
      using split by (rule arg_cong [where f = "\<lambda>x. x @ rest"])
    also have "\<dots> = take i pre @ ?pd ! i # (drop (Suc i) ?pd @ rest)"
      by (simp only: tk append_assoc append_Cons)
    finally show ?thesis .
  qed
  have "validateItems Map.empty 0 (take i pre @ ?pd ! i # (drop (Suc i) ?pd @ rest))
        = Some (Errorf (''entry '' @ itoa (int (0 + length (take i pre)))) err)"
  proof (rule validateItems_first_invalid)
    show "distinct (map ID (take i pre))"
      using fd by (simp add: firstDuplicate_def distinct_take take_map [symmetric])
    show "\<forall>e\<in>set (take i pre). \<not> lookupID Map.empty (ID e)" by (simp add: lookupID_def)
    show "\<forall>e\<in>set (take i pre). Entry_Validate e = None"
    proof
      fix e assume "e \<in> set (take i pre)"
      then obtain j where j: "j < length (take i pre)" "e = take i pre ! j"
        by (auto simp: in_set_conv_nth)
      then have "j < i" and "e = ?pd ! j" using h by (simp_all add: nth_append)
      with h show "Entry_Validate e = None" by simp
    qed
    show "Entry_Validate (?pd ! i) = Some err" using h by simp
  qed
  moreover have "length (take i pre) = i" using h by simp
  moreover have "Feed_Validate f = validateItems Map.empty 0 (elems (Items f))"
    using h by (simp add: Feed_Validate_items)
  ultimately show "Feed_Validate f = Some (Errorf (''entry '' @ itoa (int i)) err)"
    by (simp only: items add_0)
next
  assume fd: "firstDuplicate (elems (Items f)) pre d rest"
    and h: "feedChecksPass f \<and> (\<forall>e\<in>set (pre @ [d]). Entry_Validate e = None)"
  have "validateItems Map.empty 0 (pre @ d # rest)
        = Some (NewError ''items'' (''duplicate entry ID: '' @ ID d))"
    by (rule validateItems_first_duplicate)
      (use fd h in \<open>simp_all add: lookupID_def firstDuplicate_def\<close>)
  moreover have "Feed_Validate f = validateItems Map.empty 0 (elems (Items f))"
    using h by (simp add: Feed_Validate_items)
  moreover have "elems (Items f) = pre @ d # rest" using fd by (simp add: firstDuplicate_def)
  ultimately show "Feed_Validate f
            = Some (ValidationError ''items'' (''duplicate entry ID: '' @ ID d))"
    by (simp only: NewError_def)
qed

lemma valid_a1: "Entry_Validate a1 = None" by code_simp
lemma valid_a2: "Entry_Validate a2 = None" by code_simp
lemma valid_a1again: "Entry_Validate a1again = None" by code_simp
lemma invalid_untitled:
  "Entry_Validate untitled = Some (ValidationError ''title'' ''title is required'')"
  by code_simp
lemma invalid_a1bad:
  "Entry_Validate a1bad = Some (ValidationError ''title'' ''title is required'')"
  by code_simp
lemma entry_1: "''entry '' @ itoa (int 1) = ''entry 1''" by code_simp

theorem Feed_Validate_duplicate_witness:
  "Feed_Validate feedDup = Some (ValidationError ''items'' ''duplicate entry ID: a1'')
   \<and> Feed_Validate feedDupAfterInvalid
       = Some (Errorf ''entry 1'' (ValidationError ''title'' ''title is required''))
   \<and> Feed_Validate feedDupInvalid
       = Some (Errorf ''entry 1'' (ValidationError ''title'' ''title is required''))
   \<and> Feed_Validate feedDupOldVersion
       = Some (ValidationError ''version'' ''unsupported version: 0.9, expected: 1.0'')"
proof (intro conjI)
  have fd: "firstDuplicate (elems (Items feedDup)) [a1, a2] a1again []" by code_simp
  have ok: "feedChecksPass feedDup" by code_simp
  have all: "\<forall>e\<in>set ([a1, a2] @ [a1again]). Entry_Validate e = None"
    by (simp add: valid_a1 valid_a2 valid_a1again)
  have ident: "ID a1again = ''a1''" by code_simp
  from Feed_Validate_duplicate [of feedDup "[a1, a2]" a1again "[]"] fd ok all
  have "Feed_Validate feedDup
          = Some (ValidationError ''items'' (''duplicate entry ID: '' @ ID a1again))"
    by blast
  then show "Feed_Validate feedDup = Some (ValidationError ''items'' ''duplicate entry ID: a1'')"
    by (simp add: ident)
next
  have fd: "firstDuplicate (elems (Items feedDupAfterInvalid)) [a1, untitled] a1again []"
    by code_simp
  have ok: "feedChecksPass feedDupAfterInvalid" by code_simp
  have i: "(1::nat) \<le> length [a1, untitled]" by simp
  have before: "\<forall>j<(1::nat). Entry_Validate (([a1, untitled] @ [a1again]) ! j) = None"
    by (simp add: valid_a1)
  have at: "Entry_Validate (([a1, untitled] @ [a1again]) ! 1)
              = Some (ValidationError ''title'' ''title is required'')"
    by (simp add: invalid_untitled)
  from Feed_Validate_duplicate [of feedDupAfterInvalid "[a1, untitled]" a1again "[]" 1
      "ValidationError ''title'' ''title is required''"] fd ok i before at
  have "Feed_Validate feedDupAfterInvalid
          = Some (Errorf (''entry '' @ itoa (int 1))
              (ValidationError ''title'' ''title is required''))"
    by blast
  then show "Feed_Validate feedDupAfterInvalid
       = Some (Errorf ''entry 1'' (ValidationError ''title'' ''title is required''))"
    by (simp only: entry_1)
next
  have fd: "firstDuplicate (elems (Items feedDupInvalid)) [a1] a1bad []" by code_simp
  have ok: "feedChecksPass feedDupInvalid" by code_simp
  have i: "(1::nat) \<le> length [a1]" by simp
  have before: "\<forall>j<(1::nat). Entry_Validate (([a1] @ [a1bad]) ! j) = None"
    by (simp add: valid_a1)
  have at: "Entry_Validate (([a1] @ [a1bad]) ! 1)
              = Some (ValidationError ''title'' ''title is required'')"
    by (simp add: invalid_a1bad)
  from Feed_Validate_duplicate [of feedDupInvalid "[a1]" a1bad "[]" 1
      "ValidationError ''title'' ''title is required''"] fd ok i before at
  have "Feed_Validate feedDupInvalid
          = Some (Errorf (''entry '' @ itoa (int 1))
              (ValidationError ''title'' ''title is required''))"
    by blast
  then show "Feed_Validate feedDupInvalid
       = Some (Errorf ''entry 1'' (ValidationError ''title'' ''title is required''))"
    by (simp only: entry_1)
next
  have fd: "firstDuplicate (elems (Items feedDupOldVersion)) [a1, a2] a1again []" by code_simp
  have v: "FeedVersion feedDupOldVersion = ''0.9''" by code_simp
  have ne: "FeedVersion feedDupOldVersion \<noteq> Version" by code_simp
  from Feed_Validate_duplicate [of feedDupOldVersion "[a1, a2]" a1again "[]"] fd ne
  have "Feed_Validate feedDupOldVersion = Some (ValidationError ''version''
          (''unsupported version: '' @ FeedVersion feedDupOldVersion @ '', expected: '' @ Version))"
    by blast
  then show "Feed_Validate feedDupOldVersion
       = Some (ValidationError ''version'' ''unsupported version: 0.9, expected: 1.0'')"
    by (simp add: v Version_def)
qed


section \<open>Properties of serving\<close>

lemma Feed_ServeHTTP_not_modified:
  assumes "LastUpdated f = Some t"
    and "Header_Get (RequestHeader r) ''If-None-Match'' = etagOf t (length (elems (Items f)))"
  shows "Feed_ServeHTTP marshalIndent formatHTTP f newResponseWriter r
              = Return \<lparr>header = jsonHeaders (formatHTTP t) (etagOf t (length (elems (Items f)))),
                        statusCode = StatusNotModified, body = []\<rparr>"
  using assms
  by (simp add: Feed_ServeHTTP_def Let_def newResponseWriter_def setHeader_def
      WriteHeader_def jsonHeaders_def)

lemma Feed_ServeHTTP_ok:
  assumes "LastUpdated f = Some t"
    and "Header_Get (RequestHeader r) ''If-None-Match'' \<noteq> etagOf t (length (elems (Items f)))"
    and "marshalIndent f = Inr data"
  shows "Feed_ServeHTTP marshalIndent formatHTTP f newResponseWriter r
              = Return \<lparr>header = jsonHeaders (formatHTTP t) (etagOf t (length (elems (Items f)))),
                        statusCode = StatusOK, body = data\<rparr>"
  using assms
  by (simp add: Feed_ServeHTTP_def Let_def newResponseWriter_def setHeader_def
      WriteHeader_def Write_def ToJSON_def jsonHeaders_def StatusOK_def)

lemma Feed_ServeHTTP_error:
  assumes "LastUpdated f = Some t"
    and "Header_Get (RequestHeader r) ''If-None-Match'' \<noteq> etagOf t (length (elems (Items f)))"
    and "marshalIndent f = Inl msg"
  shows "Feed_ServeHTTP marshalIndent formatHTTP f newResponseWriter r
              = Return \<lparr>header = [(''Content-Type'', ''text/plain; charset=utf-8''),
                          (''Cache-Control'', DefaultCacheControl),
                          (''Last-Modified'', formatHTTP t),
                          (''ETag'', etagOf t (length (elems (Items f)))),
                          (''X-Content-Type-Options'', ''nosniff'')],
                        statusCode = StatusInternalServerError,
                        body = ''Internal server error'' @ [CHR 0x0A]\<rparr>"
  using assms
  by (simp add: Feed_ServeHTTP_def Let_def newResponseWriter_def setHeader_def
      WriteHeader_def Write_def ToJSON_def http_Error_def Header_Del_def
      StatusInternalServerError_def)

lemma Feed_ServeHTTP_etag:
  assumes "LastUpdated f = Some t"
  shows "headerOf (Feed_ServeHTTP marshalIndent formatHTTP f newResponseWriter r) ''ETag''
         = Some (etagOf t (length (elems (Items f))))"
proof (cases "Header_Get (RequestHeader r) ''If-None-Match'' = etagOf t (length (elems (Items f)))")
  case True
  show ?thesis
    by (simp add: Feed_ServeHTTP_not_modified [OF assms True] headerOf_def jsonHeaders_def)
next
  case False
  show ?thesis
  proof (cases "marshalIndent f")
    case (Inl msg)
    show ?thesis
      by (simp add: Feed_ServeHTTP_error [where marshalIndent = marshalIndent, OF assms False Inl] headerOf_def)
  next
    case (Inr data)
    show ?thesis
      by (simp add: Feed_ServeHTTP_ok [where marshalIndent = marshalIndent, OF assms False Inr] headerOf_def jsonHeaders_def)
  qed
qed

text \<open>
  Claim C6, as stated, has every request without a matching \<open>If-None-Match\<close>
  answered with the full JSON document.  \<open>Feed.ServeHTTP\<close> answers with status 500
  and a plain-text message when \<open>ToJSON\<close> fails, as it does for a feed whose
  \<open>LastUpdated\<close> lies in the year 10000.
\<close>

theorem Feed_ServeHTTP_serialization_counterexample:
  "LastUpdated feedFarFuture = Some farFuture
   \<and> statusOf (Feed_ServeHTTP checkedMarshalIndent sampleFormat feedFarFuture
        newResponseWriter noHeaders) = Some 500
   \<and> bodyOf (Feed_ServeHTTP checkedMarshalIndent sampleFormat feedFarFuture
        newResponseWriter noHeaders) = Some (''Internal server error'' @ [CHR 0x0A])"
proof -
  have lu: "LastUpdated feedFarFuture = Some farFuture"
    by (simp add: feedFarFuture_def)
  have nm: "Header_Get (RequestHeader noHeaders) ''If-None-Match''
             \<noteq> etagOf farFuture (length (elems (Items feedFarFuture)))"
    by (simp add: noHeaders_def Header_Get_def etagOf_def)
  have fails: "checkedMarshalIndent feedFarFuture
     = Inl ''json: error calling MarshalJSON for type *time.Time: Time.MarshalJSON: year outside of range [0,9999]''"
    by (simp add: checkedMarshalIndent_def feedFarFuture_def yearInRange_def farFuture_def)
  show ?thesis
    by (simp add: Feed_ServeHTTP_error [where marshalIndent = checkedMarshalIndent,
          OF lu nm fails] statusOf_def bodyOf_def StatusInternalServerError_def lu)
qed

text \<open>
  Claim C6, amended: for a feed that has a last-updated timestamp, \<open>Feed.ServeHTTP\<close>
  answers a request whose \<open>If-None-Match\<close> equals the ETag with status 304 and an
  empty body; any other request it answers with status 200 and the document that
  \<open>ToJSON\<close> produced, or with status 500 when \<open>ToJSON\<close> fails.  The replies with
  status 304 and 200 carry \<open>Last-Modified\<close>, formatted from the timestamp, and the
  ETag.  The ETag is \<open>etagOf\<close> of the timestamp and the number of items, so two feeds
  that agree on both get the same ETag, whatever else differs.
\<close>

theorem Feed_ServeHTTP_conditional:
  assumes "LastUpdated f = Some t"
  shows "(Header_Get (RequestHeader r) ''If-None-Match'' = etagOf t (length (elems (Items f))) \<longrightarrow>
            Feed_ServeHTTP marshalIndent formatHTTP f newResponseWriter r
              = Return \<lparr>header = jsonHeaders (formatHTTP t) (etagOf t (length (elems (Items f)))),
                        statusCode = StatusNotModified, body = []\<rparr>)
       \<and> (Header_Get (RequestHeader r) ''If-None-Match'' \<noteq> etagOf t (length (elems (Items f)))
            \<and> marshalIndent f = Inr data \<longrightarrow>
            Feed_ServeHTTP marshalIndent formatHTTP f newResponseWriter r
              = Return \<lparr>header = jsonHeaders (formatHTTP t) (etagOf t (length (elems (Items f)))),
                        statusCode = StatusOK, body = data\<rparr>)
       \<and> (Header_Get (RequestHeader r) ''If-None-Match'' \<noteq> etagOf t (length (elems (Items f)))
            \<and> marshalIndent f = Inl msg \<longrightarrow>
            statusOf (Feed_ServeHTTP marshalIndent formatHTTP f newResponseWriter r)
              = Some StatusInternalServerError
            \<and> bodyOf (Feed_ServeHTTP marshalIndent formatHTTP f newResponseWriter r)
              = Some (''Internal server error'' @ [CHR 0x0A]))
       \<and> (LastUpdated g = Some t \<and> length (elems (Items g)) = length (elems (Items f)) \<longrightarrow>
            headerOf (Feed_ServeHTTP marshalIndent formatHTTP g newResponseWriter r) ''ETag''
            = headerOf (Feed_ServeHTTP marshalIndent' formatHTTP' f newResponseWriter r') ''ETag'')"
proof (intro conjI impI)
  assume "Header_Get (RequestHeader r) ''If-None-Match'' = etagOf t (length (elems (Items f)))"
  with assms show "Feed_ServeHTTP marshalIndent formatHTTP f newResponseWriter r
              = Return \<lparr>header = jsonHeaders (formatHTTP t) (etagOf t (length (elems (Items f)))),
                        statusCode = StatusNotModified, body = []\<rparr>"
    by (rule Feed_ServeHTTP_not_modified)
next
  assume h: "Header_Get (RequestHeader r) ''If-None-Match'' \<noteq> etagOf t (length (elems (Items f)))
            \<and> marshalIndent f = Inr data"
  show "Feed_ServeHTTP marshalIndent formatHTTP f newResponseWriter r
              = Return \<lparr>header = jsonHeaders (formatHTTP t) (etagOf t (length (elems (Items f)))),
                        statusCode = StatusOK, body = data\<rparr>"
    by (rule Feed_ServeHTTP_ok) (use assms h in simp_all)
next
  assume h: "Header_Get (RequestHeader r) ''If-None-Match'' \<noteq> etagOf t (length (elems (Items f)))
            \<and> marshalIndent f = Inl msg"
  have e: "Feed_ServeHTTP marshalIndent formatHTTP f newResponseWriter r
              = Return \<lparr>header = [(''Content-Type'', ''text/plain; charset=utf-8''),
                          (''Cache-Control'', DefaultCacheControl),
                          (''Last-Modified'', formatHTTP t),
                          (''ETag'', etagOf t (length (elems (Items f)))),
                          (''X-Content-Type-Options'', ''nosniff'')],
                        statusCode = StatusInternalServerError,
                        body = ''Internal server error'' @ [CHR 0x0A]\<rparr>"
    by (rule Feed_ServeHTTP_error) (use assms h in simp_all)
  show "statusOf (Feed_ServeHTTP marshalIndent formatHTTP f newResponseWriter r)
              = Some StatusInternalServerError"
    by (simp add: e statusOf_def)
  show "bodyOf (Feed_ServeHTTP marshalIndent formatHTTP f newResponseWriter r)
              = Some (''Internal server error'' @ [CHR 0x0A])"
    by (simp add: e bodyOf_def)
next
  assume g: "LastUpdated g = Some t \<and> length (elems (Items g)) = length (elems (Items f))"
  then have "headerOf (Feed_ServeHTTP marshalIndent formatHTTP g newResponseWriter r) ''ETag''
      = Some (etagOf t (length (elems (Items f))))"
    by (simp add: Feed_ServeHTTP_etag)
  then show "headerOf (Feed_ServeHTTP marshalIndent formatHTTP g newResponseWriter r) ''ETag''
            = headerOf (Feed_ServeHTTP marshalIndent' formatHTTP' f newResponseWriter r') ''ETag''"
    by (simp add: Feed_ServeHTTP_etag [OF assms])
qed

theorem Feed_ServeHTTP_conditional_witness:
  "Feed_ServeHTTP sampleMarshalIndent sampleFormat feedA newResponseWriter
       (ifNoneMatch ([CHR 0x22] @ ''beam-1735812000-2'' @ [CHR 0x22]))
     = Return \<lparr>header = jsonHeaders ''1735812000'' ([CHR 0x22] @ ''beam-1735812000-2'' @ [CHR 0x22]),
               statusCode = 304, body = []\<rparr>
   \<and> Feed_ServeHTTP sampleMarshalIndent sampleFormat feedA newResponseWriter noHeaders
     = Return \<lparr>header = jsonHeaders ''1735812000'' ([CHR 0x22] @ ''beam-1735812000-2'' @ [CHR 0x22]),
               statusCode = 200, body = ''feed Feed A with 2 items''\<rparr>
   \<and> headerOf (Feed_ServeHTTP sampleMarshalIndent sampleFormat
         (feedOf [a2, untitled]) newResponseWriter noHeaders) ''ETag''
     = headerOf (Feed_ServeHTTP sampleMarshalIndent sampleFormat feedA newResponseWriter
         noHeaders) ''ETag''
   \<and> statusOf (Feed_ServeHTTP checkedMarshalIndent sampleFormat feedFarFuture
         newResponseWriter noHeaders) = Some 500"
proof -
  have luF: "LastUpdated feedFarFuture = Some farFuture"
    by (simp add: feedFarFuture_def)
  have nmF: "Header_Get (RequestHeader noHeaders) ''If-None-Match''
             \<noteq> etagOf farFuture (length (elems (Items feedFarFuture)))"
    by (simp add: noHeaders_def Header_Get_def etagOf_def)
  have failsF: "checkedMarshalIndent feedFarFuture
     = Inl ''json: error calling MarshalJSON for type *time.Time: Time.MarshalJSON: year outside of range [0,9999]''"
    by (simp add: checkedMarshalIndent_def feedFarFuture_def yearInRange_def farFuture_def)
  have r500: "statusOf (Feed_ServeHTTP checkedMarshalIndent sampleFormat feedFarFuture
         newResponseWriter noHeaders) = Some StatusInternalServerError"
    using Feed_ServeHTTP_conditional [OF luF, where r = noHeaders
        and formatHTTP = sampleFormat and marshalIndent = checkedMarshalIndent
        and msg = "''json: error calling MarshalJSON for type *time.Time: Time.MarshalJSON: year outside of range [0,9999]''"]
      nmF failsF by blast
  have lu: "LastUpdated feedA = Some t2"
    by (simp add: feedA_def feedOf_def NewFeed_def UTC_def t2_def)
  have n: "length (elems (Items feedA)) = 2" by (simp add: feedA_def feedOf_def)
  have etag: "etagOf t2 2 = [CHR 0x22] @ ''beam-1735812000-2'' @ [CHR 0x22]"
    by (simp add: etagOf_def t2_def Unix_def itoa_def itoa_nat.simps digit_def)
  have fmt: "sampleFormat t2 = ''1735812000''"
    by (simp add: sampleFormat_def t2_def Unix_def itoa_def itoa_nat.simps digit_def)
  have m: "Header_Get (RequestHeader (ifNoneMatch ([CHR 0x22] @ ''beam-1735812000-2'' @ [CHR 0x22])))
             ''If-None-Match'' = etagOf t2 (length (elems (Items feedA)))"
    by (simp add: n etag ifNoneMatch_def Header_Get_def)
  have nm: "Header_Get (RequestHeader noHeaders) ''If-None-Match''
             \<noteq> etagOf t2 (length (elems (Items feedA)))"
    by (simp add: n etag noHeaders_def Header_Get_def)
  have doc: "sampleMarshalIndent feedA = Inr ''feed Feed A with 2 items''"
    by (simp add: sampleMarshalIndent_def feedA_def feedOf_def NewFeed_def itoa_def
        itoa_nat.simps digit_def)
  have g: "LastUpdated (feedOf [a2, untitled]) = Some t2
           \<and> length (elems (Items (feedOf [a2, untitled]))) = length (elems (Items feedA))"
    by (simp add: feedA_def feedOf_def NewFeed_def UTC_def t2_def)
  have r304: "Feed_ServeHTTP sampleMarshalIndent sampleFormat feedA newResponseWriter
       (ifNoneMatch ([CHR 0x22] @ ''beam-1735812000-2'' @ [CHR 0x22]))
     = Return \<lparr>header = jsonHeaders (sampleFormat t2) (etagOf t2 (length (elems (Items feedA)))),
               statusCode = StatusNotModified, body = []\<rparr>"
    using Feed_ServeHTTP_conditional [OF lu,
        where r = "ifNoneMatch ([CHR 0x22] @ ''beam-1735812000-2'' @ [CHR 0x22])"
        and formatHTTP = sampleFormat and marshalIndent = sampleMarshalIndent] m by blast
  have r200: "Feed_ServeHTTP sampleMarshalIndent sampleFormat feedA newResponseWriter noHeaders
     = Return \<lparr>header = jsonHeaders (sampleFormat t2) (etagOf t2 (length (elems (Items feedA)))),
               statusCode = StatusOK, body = ''feed Feed A with 2 items''\<rparr>"
    using Feed_ServeHTTP_conditional [OF lu, where r = noHeaders
        and formatHTTP = sampleFormat and marshalIndent = sampleMarshalIndent
        and data = "''feed Feed A with 2 items''"] nm doc by blast
  have same: "headerOf (Feed_ServeHTTP sampleMarshalIndent sampleFormat
         (feedOf [a2, untitled]) newResponseWriter noHeaders) ''ETag''
     = headerOf (Feed_ServeHTTP sampleMarshalIndent sampleFormat feedA newResponseWriter
         noHeaders) ''ETag''"
    using Feed_ServeHTTP_conditional [OF lu, where r = noHeaders
        and formatHTTP = sampleFormat and marshalIndent = sampleMarshalIndent
        and g = "feedOf [a2, untitled]" and marshalIndent' = sampleMarshalIndent
        and formatHTTP' = sampleFormat and r' = noHeaders] g by blast
  show ?thesis
    using r304 r200 same r500
    by (simp add: n etag fmt StatusNotModified_def StatusOK_def StatusInternalServerError_def)
qed

section \<open>Properties of the integrity hash\<close>

subsection \<open>The hexadecimal encoding loses nothing\<close>

lemma hexValue_hexDigit_all: "\<forall>d\<in>set [0..<16]. hexValue (hexDigit d) = d"
  by code_simp

lemma hexValue_hexDigit: "d < 16 \<Longrightarrow> hexValue (hexDigit d) = d"
  using hexValue_hexDigit_all by simp

lemma hexDigit_inj: "a < 16 \<Longrightarrow> b < 16 \<Longrightarrow> hexDigit a = hexDigit b \<Longrightarrow> a = b"
  by (metis hexValue_hexDigit)

lemma of_char_lt_256: "(of_char c :: nat) < 256"
  by (cases c) (simp add: )

lemma hex_pair_inj:
  assumes "hexDigit (of_char c div 16) = hexDigit (of_char d div 16)"
    and "hexDigit (of_char c mod 16) = hexDigit (of_char d mod 16)"
  shows "c = d"
proof -
  have c: "(of_char c :: nat) < 256" and d: "(of_char d :: nat) < 256"
    by (rule of_char_lt_256)+
  have hi: "(of_char c :: nat) div 16 = of_char d div 16"
  proof (rule hexDigit_inj [OF _ _ assms(1)])
    show "(of_char c :: nat) div 16 < 16" using c by arith
    show "(of_char d :: nat) div 16 < 16" using d by arith
  qed
  have lo: "(of_char c :: nat) mod 16 = of_char d mod 16"
    by (rule hexDigit_inj [OF _ _ assms(2)]) simp_all
  have "(of_char c :: nat) = of_char d"
    using hi lo by (metis div_mult_mod_eq)
  then show ?thesis by simp
qed

lemma EncodeToString_Cons:
  "EncodeToString (c # cs)
     = hexDigit (of_char c div 16) # hexDigit (of_char c mod 16) # EncodeToString cs"
  by (simp add: EncodeToString_def)

lemma EncodeToString_Nil: "EncodeToString [] = []"
  by (simp add: EncodeToString_def)

lemma EncodeToString_inj: "EncodeToString xs = EncodeToString ys \<Longrightarrow> xs = ys"
proof (induction xs arbitrary: ys)
  case Nil
  then show ?case by (cases ys) (simp_all add: EncodeToString_Nil EncodeToString_Cons)
next
  case (Cons x xs)
  show ?case
  proof (cases ys)
    case Nil
    with Cons.prems show ?thesis by (simp add: EncodeToString_Nil EncodeToString_Cons)
  next
    case (Cons y ys')
    with Cons.prems have "x = y" and "EncodeToString xs = EncodeToString ys'"
      by (auto simp: EncodeToString_Cons intro: hex_pair_inj)
    with Cons.IH Cons show ?thesis by simp
  qed
qed

lemma length_EncodeToString: "length (EncodeToString xs) = 2 * length xs"
  by (induction xs) (simp_all add: EncodeToString_Nil EncodeToString_Cons)

subsection \<open>The hash of a feed\<close>

text \<open>
  Claim C9: \<open>ComputeFeedHash\<close> depends on the feed only through its entry sequence:
  feeds with the same \<open>Items\<close> (the same entries in the same order) get the same
  result, on every run.  The result is the hexadecimal encoding of the SHA-256 digest of
  what \<open>json.Marshal\<close> makes of the entries, or the error of \<open>json.Marshal\<close>; as
  the encoding is one-to-one, two feeds get the same hash exactly when the digests of their
  serialised entries agree.  \<open>ValidateFeedHash\<close> returns the hash-mismatch error
  exactly when the hash could be computed and differs from the expected one, returns no
  error exactly when the hash is the expected one, and leaves the feed as it was.
\<close>

theorem ComputeFeedHash_deterministic:
  "(Items f = Items g \<longrightarrow>
      ComputeFeedHash marshal sum256 f = ComputeFeedHash marshal sum256 g)
   \<and> (marshal (Items f) = Inr data \<longrightarrow>
        ComputeFeedHash marshal sum256 f = Inr (EncodeToString (sum256 data)))
   \<and> (marshal (Items f) = Inl msg \<longrightarrow>
        ComputeFeedHash marshal sum256 f = Inl (LibError msg))
   \<and> (marshal (Items f) = Inr data \<and> marshal (Items g) = Inr data' \<longrightarrow>
        (ComputeFeedHash marshal sum256 f = ComputeFeedHash marshal sum256 g
           \<longleftrightarrow> sum256 data = sum256 data'))
   \<and> (snd (ValidateFeedHash marshal sum256 f expected) = Some hashMismatch
        \<longleftrightarrow> (\<exists>h. ComputeFeedHash marshal sum256 f = Inr h \<and> h \<noteq> expected))
   \<and> (snd (ValidateFeedHash marshal sum256 f expected) = None
        \<longleftrightarrow> ComputeFeedHash marshal sum256 f = Inr expected)
   \<and> fst (ValidateFeedHash marshal sum256 f expected) = f"
proof (intro conjI impI)
  assume "Items f = Items g"
  then show "ComputeFeedHash marshal sum256 f = ComputeFeedHash marshal sum256 g"
    by (simp add: ComputeFeedHash_def)
next
  assume "marshal (Items f) = Inr data"
  then show "ComputeFeedHash marshal sum256 f = Inr (EncodeToString (sum256 data))"
    by (simp add: ComputeFeedHash_def)
next
  assume "marshal (Items f) = Inl msg"
  then show "ComputeFeedHash marshal sum256 f = Inl (LibError msg)"
    by (simp add: ComputeFeedHash_def)
next
  assume "marshal (Items f) = Inr data \<and> marshal (Items g) = Inr data'"
  then have "ComputeFeedHash marshal sum256 f = Inr (EncodeToString (sum256 data))"
    and "ComputeFeedHash marshal sum256 g = Inr (EncodeToString (sum256 data'))"
    by (simp_all add: ComputeFeedHash_def)
  then show "ComputeFeedHash marshal sum256 f = ComputeFeedHash marshal sum256 g
           \<longleftrightarrow> sum256 data = sum256 data'"
    by (auto dest: EncodeToString_inj)
next
  show "snd (ValidateFeedHash marshal sum256 f expected) = Some hashMismatch
        \<longleftrightarrow> (\<exists>h. ComputeFeedHash marshal sum256 f = Inr h \<and> h \<noteq> expected)"
  proof (cases "marshal (Items f)")
    case (Inl msg)
    then show ?thesis
      by (simp add: ValidateFeedHash_def ComputeFeedHash_def hashMismatch_def)
  next
    case (Inr data)
    then show ?thesis
      by (simp add: ValidateFeedHash_def ComputeFeedHash_def)
  qed
  show "snd (ValidateFeedHash marshal sum256 f expected) = None
        \<longleftrightarrow> ComputeFeedHash marshal sum256 f = Inr expected"
    by (cases "marshal (Items f)") (simp_all add: ValidateFeedHash_def ComputeFeedHash_def)
  show "fst (ValidateFeedHash marshal sum256 f expected) = f"
    by (cases "marshal (Items f)") (simp_all add: ValidateFeedHash_def ComputeFeedHash_def)
qed

theorem ComputeFeedHash_deterministic_witness:
  "ComputeFeedHash sampleMarshal sampleSum256 feedA
     = ComputeFeedHash sampleMarshal sampleSum256 (feedA\<lparr>Title := ''Other''\<rparr>)
   \<and> ComputeFeedHash sampleMarshal sampleSum256 feedA = Inr ''5d3b3261''
   \<and> ComputeFeedHash sampleMarshal sampleSum256 feedNilItems
       \<noteq> ComputeFeedHash sampleMarshal sampleSum256 feedNoItems
   \<and> snd (ValidateFeedHash sampleMarshal sampleSum256 feedA ''00'') = Some hashMismatch
   \<and> snd (ValidateFeedHash sampleMarshal sampleSum256 feedA ''5d3b3261'') = None"
proof -
  have same: "Items feedA = Items (feedA\<lparr>Title := ''Other''\<rparr>)" by simp
  have m: "sampleMarshal (Items feedA) = Inr ''[a1;a2;]''" by code_simp
  have d: "EncodeToString (sampleSum256 ''[a1;a2;]'') = ''5d3b3261''" by code_simp
  have mn: "sampleMarshal (Items feedNilItems) = Inr ''null''
            \<and> sampleMarshal (Items feedNoItems) = Inr ''[]''" by code_simp
  have dn: "sampleSum256 ''null'' \<noteq> sampleSum256 ''[]''" by code_simp
  have ne: "''5d3b3261'' \<noteq> ''00''" by simp
  note T = ComputeFeedHash_deterministic [of feedA "feedA\<lparr>Title := ''Other''\<rparr>" sampleMarshal sampleSum256
      "''[a1;a2;]''"]
  have a: "ComputeFeedHash sampleMarshal sampleSum256 feedA
     = ComputeFeedHash sampleMarshal sampleSum256 (feedA\<lparr>Title := ''Other''\<rparr>)"
    using T same by blast
  have h: "ComputeFeedHash sampleMarshal sampleSum256 feedA = Inr ''5d3b3261''"
    using T m d by metis
  have n: "ComputeFeedHash sampleMarshal sampleSum256 feedNilItems
       \<noteq> ComputeFeedHash sampleMarshal sampleSum256 feedNoItems"
    using ComputeFeedHash_deterministic [of feedNilItems feedNoItems sampleMarshal sampleSum256 "''null''" _ "''[]''"]
      mn dn by blast
  have b: "snd (ValidateFeedHash sampleMarshal sampleSum256 feedA ''00'') = Some hashMismatch"
    using ComputeFeedHash_deterministic [of feedA feedA sampleMarshal sampleSum256 _ _ _ "''00''"] h ne by blast
  have c: "snd (ValidateFeedHash sampleMarshal sampleSum256 feedA ''5d3b3261'') = None"
    using ComputeFeedHash_deterministic [of feedA feedA sampleMarshal sampleSum256 _ _ _ "''5d3b3261''"] h by blast
  show ?thesis using a h n b c by blast
qed

section \<open>A feed without a last-updated timestamp\<close>

text \<open>
  Claim C10: \<open>Feed.ServeHTTP\<close> dereferences \<open>f.LastUpdated\<close> when it builds the
  ETag, so for every feed whose \<open>LastUpdated\<close> is nil it panics and sends no
  response.  \<open>Feed.Validate\<close> does not look at \<open>LastUpdated\<close>, so \<open>FromJSON\<close>
  hands out such a feed when the decoded document has none and is valid otherwise.
\<close>

theorem Feed_ServeHTTP_nil_LastUpdated:
  "(LastUpdated f = None \<longrightarrow>
      Feed_ServeHTTP marshalIndent formatHTTP f w r
        = Panic ''invalid memory address or nil pointer dereference'')
   \<and> (unmarshal data = Inr f \<and> Feed_Validate f = None \<and> LastUpdated f = None \<longrightarrow>
        FromJSON unmarshal data = Inr f
        \<and> statusOf (Feed_ServeHTTP marshalIndent formatHTTP f w r) = None)
   \<and> Feed_Validate (f\<lparr>LastUpdated := None\<rparr>) = Feed_Validate f"
  by (simp add: Feed_ServeHTTP_def FromJSON_def Let_def statusOf_def Feed_Validate_def)

theorem Feed_ServeHTTP_nil_LastUpdated_witness:
  "FromJSON sampleUnmarshal ''no-date'' = Inr feedNoDate
   \<and> Feed_Validate feedNoDate = None \<and> LastUpdated feedNoDate = None
   \<and> Feed_ServeHTTP sampleMarshalIndent sampleFormat feedNoDate newResponseWriter noHeaders
        = Panic ''invalid memory address or nil pointer dereference''"
proof -
  have dec: "sampleUnmarshal ''no-date'' = Inr feedNoDate" by (simp add: sampleUnmarshal_def)
  have ok: "Feed_Validate feedNoDate = None" by code_simp
  have nil: "LastUpdated feedNoDate = None" by (simp add: feedNoDate_def)
  from Feed_ServeHTTP_nil_LastUpdated [of feedNoDate sampleMarshalIndent sampleFormat
      newResponseWriter noHeaders sampleUnmarshal "''no-date''"] dec ok nil
  show ?thesis by blast
qed

section \<open>Serving the aggregated feed\<close>

lemma Feed_ServeHTTP_status:
  "statusOf (Feed_ServeHTTP marshalIndent formatHTTP f newResponseWriter r)
     \<in> {None, Some StatusNotModified, Some StatusOK, Some StatusInternalServerError}"
proof (cases "LastUpdated f")
  case None
  then show ?thesis by (simp add: Feed_ServeHTTP_def Let_def statusOf_def)
next
  case (Some t)
  show ?thesis
  proof (cases "Header_Get (RequestHeader r) ''If-None-Match'' = etagOf t (length (elems (Items f)))")
    case True
    show ?thesis
      by (simp add: Feed_ServeHTTP_not_modified [OF Some True] statusOf_def)
  next
    case False
    show ?thesis
    proof (cases "marshalIndent f")
      case (Inl msg)
      show ?thesis
        by (simp add: Feed_ServeHTTP_error [where marshalIndent = marshalIndent,
              OF Some False Inl] statusOf_def)
    next
      case (Inr data)
      show ?thesis
        by (simp add: Feed_ServeHTTP_ok [where marshalIndent = marshalIndent,
              OF Some False Inr] statusOf_def)
    qed
  qed
qed

text \<open>
  Claim C5, as stated, expects status 503 for a request that comes before the first
  aggregation cycle.  \<open>NewAggregator\<close> already stores an empty feed, and the handler
  serves it: the reply to a plain GET on a new aggregator has status 200 and carries
  the document of that feed.
\<close>

theorem Aggregator_ServeHTTP_fresh_counterexample:
  "statusOf (Aggregator_ServeHTTP sampleMarshalIndent sampleFormat freshAggregator
       newResponseWriter noHeaders) = Some 200
   \<and> bodyOf (Aggregator_ServeHTTP sampleMarshalIndent sampleFormat freshAggregator
       newResponseWriter noHeaders) = Some ''feed Tech News Aggregator with 0 items''"
  by (simp add: Aggregator_ServeHTTP_def freshAggregator_def NewAggregator_def NewFeed_def
      Feed_ServeHTTP_def Let_def statusOf_def bodyOf_def newResponseWriter_def setHeader_def
      noHeaders_def Header_Get_def etagOf_def ToJSON_def sampleMarshalIndent_def
      WriteHeader_def Write_def StatusOK_def itoa_def itoa_nat.simps digit_def)

text \<open>
  Claim C5, amended: the aggregator's handler answers 503 exactly when the aggregator
  holds no feed (\<open>AggregatedFeed\<close> is nil), and then sends the plain-text message and
  no feed document.  An aggregator made by \<open>NewAggregator\<close> holds an empty feed from
  the start, and \<open>AddSource\<close> and \<open>FetchAllFeeds\<close> leave a feed in place, so a GET
  before the first cycle is answered by \<open>Feed.ServeHTTP\<close> on that empty feed.
\<close>

theorem Aggregator_ServeHTTP_unavailable:
  "(statusOf (Aggregator_ServeHTTP marshalIndent formatHTTP a newResponseWriter r)
      = Some StatusServiceUnavailable \<longleftrightarrow> AggregatedFeed a = None)
   \<and> (AggregatedFeed a = None \<longrightarrow>
        Aggregator_ServeHTTP marshalIndent formatHTTP a newResponseWriter r
          = Return \<lparr>header = [(''Content-Type'', ''text/plain; charset=utf-8''),
                              (''X-Content-Type-Options'', ''nosniff'')],
                    statusCode = 503,
                    body = ''Aggregated feed not available'' @ [CHR 0x0A]\<rparr>)
   \<and> AggregatedFeed (NewAggregator now title feedURL) = Some (NewFeed now title feedURL)
   \<and> Aggregator_ServeHTTP marshalIndent formatHTTP (NewAggregator now title feedURL)
        newResponseWriter r
      = Feed_ServeHTTP marshalIndent formatHTTP (NewFeed now title feedURL) newResponseWriter r
   \<and> AggregatedFeed (AddSource a url name description) = AggregatedFeed a
   \<and> (FetchAllFeeds sortSlice clock http arrival a = Return (a', err) \<longrightarrow>
        AggregatedFeed a' \<noteq> None)"
proof (intro conjI impI)
  show "statusOf (Aggregator_ServeHTTP marshalIndent formatHTTP a newResponseWriter r)
      = Some StatusServiceUnavailable \<longleftrightarrow> AggregatedFeed a = None"
  proof (cases "AggregatedFeed a")
    case None
    then show ?thesis
      by (simp add: Aggregator_ServeHTTP_def statusOf_def http_Error_def Let_def
          newResponseWriter_def setHeader_def WriteHeader_def Write_def Header_Del_def
          StatusServiceUnavailable_def)
  next
    case (Some f)
    have "statusOf (Feed_ServeHTTP marshalIndent formatHTTP f newResponseWriter r)
            \<noteq> Some StatusServiceUnavailable"
      using Feed_ServeHTTP_status [of marshalIndent formatHTTP f r]
      by (auto simp: StatusServiceUnavailable_def StatusNotModified_def StatusOK_def
          StatusInternalServerError_def)
    with Some show ?thesis by (simp add: Aggregator_ServeHTTP_def)
  qed
next
  assume "AggregatedFeed a = None"
  then show "Aggregator_ServeHTTP marshalIndent formatHTTP a newResponseWriter r
          = Return \<lparr>header = [(''Content-Type'', ''text/plain; charset=utf-8''),
                              (''X-Content-Type-Options'', ''nosniff'')],
                    statusCode = 503,
                    body = ''Aggregated feed not available'' @ [CHR 0x0A]\<rparr>"
    by (simp add: Aggregator_ServeHTTP_def http_Error_def Let_def newResponseWriter_def
        setHeader_def WriteHeader_def Write_def Header_Del_def StatusServiceUnavailable_def)
next
  show "AggregatedFeed (NewAggregator now title feedURL) = Some (NewFeed now title feedURL)"
    by (simp add: NewAggregator_def)
next
  show "Aggregator_ServeHTTP marshalIndent formatHTTP (NewAggregator now title feedURL)
        newResponseWriter r
      = Feed_ServeHTTP marshalIndent formatHTTP (NewFeed now title feedURL) newResponseWriter r"
    by (simp add: Aggregator_ServeHTTP_def NewAggregator_def)
next
  show "AggregatedFeed (AddSource a url name description) = AggregatedFeed a"
    by (simp add: AddSource_def)
next
  assume "FetchAllFeeds sortSlice clock http arrival a = Return (a', err)"
  then show "AggregatedFeed a' \<noteq> None"
    by (auto simp: FetchAllFeeds_def Let_def split: outcome.splits option.splits prod.splits)
qed

theorem Aggregator_ServeHTTP_unavailable_witness:
  "statusOf (Aggregator_ServeHTTP sampleMarshalIndent sampleFormat
       (freshAggregator\<lparr>AggregatedFeed := None\<rparr>) newResponseWriter noHeaders) = Some 503
   \<and> bodyOf (Aggregator_ServeHTTP sampleMarshalIndent sampleFormat
       (freshAggregator\<lparr>AggregatedFeed := None\<rparr>) newResponseWriter noHeaders)
      = Some (''Aggregated feed not available'' @ [CHR 0x0A])"
proof -
  have nil: "AggregatedFeed (freshAggregator\<lparr>AggregatedFeed := None\<rparr>) = None" by simp
  from Aggregator_ServeHTTP_unavailable [of sampleMarshalIndent sampleFormat
      "freshAggregator\<lparr>AggregatedFeed := None\<rparr>" noHeaders] nil
  have "Aggregator_ServeHTTP sampleMarshalIndent sampleFormat
          (freshAggregator\<lparr>AggregatedFeed := None\<rparr>) newResponseWriter noHeaders
          = Return \<lparr>header = [(''Content-Type'', ''text/plain; charset=utf-8''),
                              (''X-Content-Type-Options'', ''nosniff'')],
                    statusCode = 503,
                    body = ''Aggregated feed not available'' @ [CHR 0x0A]\<rparr>"
    by blast
  then show ?thesis by (simp add: statusOf_def bodyOf_def)
qed

section \<open>Properties of an aggregation cycle\<close>

subsection \<open>The receive loop\<close>

lemma SourceName_fetchedSource [simp]: "SourceName (fetchedSource t res src) = SourceName src"
  by (cases res) (simp_all add: fetchedSource_def)

lemma length_updateSources [simp]: "length (updateSources now i rs srcs) = length srcs"
  by (induction rs arbitrary: i srcs) simp_all

lemma SourceName_update:
  "k < length srcs \<Longrightarrow> SourceName (srcs[m := fetchedSource t res (srcs ! m)] ! k) = SourceName (srcs ! k)"
  by (cases "k = m") simp_all

lemma resultEntries_update:
  "index r < length srcs \<Longrightarrow>
   resultEntries (srcs[m := fetchedSource t res (srcs ! m)]) r = resultEntries srcs r"
  by (cases "fetched r") (simp_all add: resultEntries_def SourceName_update)

lemma collect_Inl:
  "index r < length srcs \<Longrightarrow> fetched r = Inl err \<Longrightarrow>
   collect now i (r # rs) srcs all sc
     = collect now (Suc i) rs
         (srcs[index r := fetchedSource (now i) (fetched r) (srcs ! index r)]) all sc"
  by (simp add: fetchedSource_def Let_def)

lemma collect_Inr:
  "index r < length srcs \<Longrightarrow> fetched r = Inr feed \<Longrightarrow>
   collect now i (r # rs) srcs all sc
     = collect now (Suc i) rs
         (srcs[index r := fetchedSource (now i) (fetched r) (srcs ! index r)])
         (all @ resultEntries srcs r) (Suc sc)"
  by (simp add: fetchedSource_def Let_def resultEntries_def)

lemma collect_result:
  "\<forall>r\<in>set rs. index r < length srcs \<Longrightarrow>
   collect now i rs srcs all sc
     = Return (updateSources now i rs srcs,
               all @ concat (map (resultEntries srcs) rs),
               sc + length (filter (\<lambda>r. \<not> isl (fetched r)) rs))"
proof (induction rs arbitrary: i srcs all sc)
  case Nil
  show ?case by simp
next
  case (Cons r rs)
  let ?srcs = "srcs[index r := fetchedSource (now i) (fetched r) (srcs ! index r)]"
  let ?n = "length (filter (\<lambda>r. \<not> isl (fetched r)) rs)"
  have r: "index r < length srcs" using Cons.prems by simp
  have rs: "\<forall>x\<in>set rs. index x < length ?srcs" using Cons.prems by simp
  have same: "map (resultEntries ?srcs) rs = map (resultEntries srcs) rs"
    using Cons.prems by (simp add: resultEntries_update)
  have upd: "updateSources now i (r # rs) srcs = updateSources now (Suc i) rs ?srcs"
    by simp
  show ?case
  proof (cases "fetched r")
    case (Inl err)
    have none: "resultEntries srcs r = []" using Inl by (simp add: resultEntries_def)
    have "collect now i (r # rs) srcs all sc = collect now (Suc i) rs ?srcs all sc"
      using r Inl by (rule collect_Inl)
    also have "\<dots> = Return (updateSources now (Suc i) rs ?srcs,
               all @ concat (map (resultEntries ?srcs) rs), sc + ?n)"
      by (rule Cons.IH [OF rs])
    also have "\<dots> = Return (updateSources now i (r # rs) srcs,
               all @ concat (map (resultEntries srcs) (r # rs)),
               sc + length (filter (\<lambda>r. \<not> isl (fetched r)) (r # rs)))"
    proof -
      have ent: "concat (map (resultEntries srcs) (r # rs))
                 = concat (map (resultEntries ?srcs) rs)"
        by (simp add: same none)
      have cnt: "length (filter (\<lambda>r. \<not> isl (fetched r)) (r # rs)) = ?n"
        using Inl by simp
      show ?thesis by (simp only: upd ent cnt)
    qed
    finally show ?thesis .
  next
    case (Inr feed)
    have "collect now i (r # rs) srcs all sc
          = collect now (Suc i) rs ?srcs (all @ resultEntries srcs r) (Suc sc)"
      using r Inr by (rule collect_Inr)
    also have "\<dots> = Return (updateSources now (Suc i) rs ?srcs,
               (all @ resultEntries srcs r) @ concat (map (resultEntries ?srcs) rs),
               Suc sc + ?n)"
      by (rule Cons.IH [OF rs])
    also have "\<dots> = Return (updateSources now i (r # rs) srcs,
               all @ concat (map (resultEntries srcs) (r # rs)),
               sc + length (filter (\<lambda>r. \<not> isl (fetched r)) (r # rs)))"
    proof -
      have ent: "all @ concat (map (resultEntries srcs) (r # rs))
                 = (all @ resultEntries srcs r) @ concat (map (resultEntries ?srcs) rs)"
        by (simp add: same)
      have cnt: "sc + length (filter (\<lambda>r. \<not> isl (fetched r)) (r # rs)) = Suc sc + ?n"
        using Inr by simp
      show ?thesis by (simp only: upd ent cnt)
    qed
    finally show ?thesis .
  qed
qed

lemma updateSources_other:
  "k \<notin> index ` set rs \<Longrightarrow> updateSources now i rs srcs ! k = srcs ! k"
  by (induction rs arbitrary: i srcs) simp_all

lemma updateSources_nth:
  "distinct (map index rs) \<Longrightarrow> j < length rs \<Longrightarrow> index (rs ! j) < length srcs \<Longrightarrow>
   updateSources now i rs srcs ! index (rs ! j)
     = fetchedSource (now (i + j)) (fetched (rs ! j)) (srcs ! index (rs ! j))"
proof (induction rs arbitrary: i srcs j)
  case Nil
  then show ?case by simp
next
  case (Cons r rs)
  let ?srcs = "srcs[index r := fetchedSource (now i) (fetched r) (srcs ! index r)]"
  show ?case
  proof (cases j)
    case 0
    have "index r \<notin> index ` set rs" using Cons.prems(1) by simp
    then have "updateSources now (Suc i) rs ?srcs ! index r = ?srcs ! index r"
      by (rule updateSources_other)
    with 0 Cons.prems(3) show ?thesis by simp
  next
    case (Suc j')
    have j': "j' < length rs" using Cons.prems(2) Suc by simp
    have ne: "index (rs ! j') \<noteq> index r"
    proof -
      have "index (rs ! j') \<in> index ` set rs" using j' by simp
      moreover have "index r \<notin> index ` set rs" using Cons.prems(1) by simp
      ultimately show ?thesis by auto
    qed
    have "updateSources now (Suc i) rs ?srcs ! index (rs ! j')
          = fetchedSource (now (Suc i + j')) (fetched (rs ! j')) (?srcs ! index (rs ! j'))"
    proof (rule Cons.IH)
      show "distinct (map index rs)" using Cons.prems(1) by simp
      show "j' < length rs" by (rule j')
      show "index (rs ! j') < length ?srcs" using Cons.prems(3) Suc by simp
    qed
    with Suc ne show ?thesis by simp
  qed
qed

lemma arrivalOK_facts:
  assumes "arrivalOK n arrival"
  shows "distinct arrival" and "set arrival = {0..<n}" and "length arrival = n"
proof -
  have "mset (sort arrival) = mset [0..<n]"
    using assms by (simp add: arrivalOK_def)
  then have m: "mset arrival = mset [0..<n]" by simp
  show "distinct arrival" using m by (metis distinct_upt mset_eq_imp_distinct_iff)
  show "set arrival = {0..<n}" using m by (metis mset_eq_setD set_upt)
  show "length arrival = n" using m by (metis length_upt mset_eq_length diff_zero)
qed

subsection \<open>The published feed\<close>

lemma addEntries_eq:
  "addEntries now i f es
     = (if es = [] then f
        else f\<lparr>Items := Slice (elems (Items f) @ es),
               LastUpdated := Some (UTC (now (i + length es - 1)))\<rparr>)"
proof (induction es arbitrary: i f)
  case Nil
  show ?case by simp
next
  case (Cons e es)
  show ?case by (simp add: Cons.IH AddEntry_def append1_def)
qed

lemma resultEntries_entriesFrom:
  "resultEntries srcs \<lparr>index = i, fetched = fetchFeedWithTimeout (http i)\<rparr>
     = entriesFrom http srcs i"
  by (cases "fetchFeedWithTimeout (http i)") (simp_all add: resultEntries_def entriesFrom_def)

lemma collected_resultsOf:
  "concat (map (resultEntries (Sources a)) (resultsOf http arrival)) = collected http arrival a"
  by (simp add: collected_def resultsOf_def comp_def resultEntries_entriesFrom)

lemma FetchAllFeeds_result:
  assumes "arrivalOK (length (Sources a)) arrival" and "AggregatedFeed a = Some old"
  shows "FetchAllFeeds sortSlice now http arrival a
           = Return (a\<lparr>Sources := updateSources now 0 (resultsOf http arrival) (Sources a),
                       AggregatedFeed := Some (publishedFeed sortSlice now http arrival a old)\<rparr>,
                     None)"
proof -
  have inrange: "\<forall>r\<in>set (resultsOf http arrival). index r < length (Sources a)"
    using arrivalOK_facts(2) [OF assms(1)] by (auto simp: resultsOf_def)
  have loop: "collect now 0 (resultsOf http arrival) (Sources a) [] 0
        = Return (updateSources now 0 (resultsOf http arrival) (Sources a),
                  collected http arrival a,
                  length (filter (\<lambda>r. \<not> isl (fetched r)) (resultsOf http arrival)))"
    using collect_result [OF inrange, of now 0 "[]" 0] by (simp add: collected_resultsOf)
  have cap: "\<And>xs::Entry list. (if maxEntries < length xs then take maxEntries xs else xs)
                = take maxEntries xs"
    by simp
  show ?thesis
    unfolding FetchAllFeeds_def Let_def resultsOf_def [symmetric] loop
    by (simp add: assms(2) cap addEntries_eq publishedFeed_def Let_def NewFeed_def
        SetDescription_def SetLanguage_def)
qed

subsection \<open>Sorting\<close>

lemma not_byPublished: "\<not> byPublished y x \<longleftrightarrow> publishedAt y \<le> publishedAt x"
  by (auto simp: byPublished_def After_def publishedAt_def)

lemma mset_insertLess: "mset (insertLess lt x ys) = add_mset x (mset ys)"
  by (induction ys) simp_all

lemma set_insertLess: "set (insertLess lt x ys) = insert x (set ys)"
  by (induction ys) auto

lemma sorted_insertLess:
  "sorted_wrt (\<lambda>x y. publishedAt y \<le> publishedAt x) ys
   \<Longrightarrow> sorted_wrt (\<lambda>x y. publishedAt y \<le> publishedAt x) (insertLess byPublished x ys)"
proof (induction ys)
  case Nil
  show ?case by simp
next
  case (Cons y ys)
  show ?case
  proof (cases "byPublished x y")
    case True
    then have "publishedAt y < publishedAt x"
      by (simp add: byPublished_def After_def publishedAt_def)
    with Cons.prems True show ?thesis by fastforce
  next
    case False
    then have "publishedAt x \<le> publishedAt y"
      by (simp add: byPublished_def After_def publishedAt_def)
    with Cons False show ?thesis by (auto simp: set_insertLess)
  qed
qed

lemma insertionSort_foldl:
  "mset (foldl (\<lambda>acc x. insertLess lt x acc) acc xs) = mset acc + mset xs"
  by (induction xs arbitrary: acc) (simp_all add: mset_insertLess)

lemma insertionSort_foldl_sorted:
  "sorted_wrt (\<lambda>x y. publishedAt y \<le> publishedAt x) acc
   \<Longrightarrow> sorted_wrt (\<lambda>x y. publishedAt y \<le> publishedAt x)
         (foldl (\<lambda>acc x. insertLess byPublished x acc) acc xs)"
  by (induction xs arbitrary: acc) (simp_all add: sorted_insertLess)

lemma sortSliceOK_insertionSort: "sortSliceOK insertionSort"
  by (simp add: sortSliceOK_def insertionSort_def insertionSort_foldl
      insertionSort_foldl_sorted not_byPublished)


lemma sortSliceOK_props:
  assumes "sortSliceOK sortSlice"
  shows "mset (sortSlice byPublished xs) = mset xs"
    and "sorted_wrt (\<lambda>x y. publishedAt y \<le> publishedAt x) (sortSlice byPublished xs)"
    and "length (sortSlice byPublished xs) = length xs"
    and "set (sortSlice byPublished xs) = set xs"
proof -
  show m: "mset (sortSlice byPublished xs) = mset xs"
    using assms by (simp add: sortSliceOK_def)
  show "sorted_wrt (\<lambda>x y. publishedAt y \<le> publishedAt x) (sortSlice byPublished xs)"
    using assms by (simp add: sortSliceOK_def not_byPublished)
  show "length (sortSlice byPublished xs) = length xs"
    using m by (rule mset_eq_length)
  show "set (sortSlice byPublished xs) = set xs"
    using m by (rule mset_eq_setD)
qed

lemma sorted_wrt_take_desc:
  "sorted_wrt P xs \<Longrightarrow> sorted_wrt P (take n xs)"
proof (induction xs arbitrary: n)
  case Nil
  show ?case by simp
next
  case (Cons x xs)
  show ?case
  proof (cases n)
    case 0
    then show ?thesis by simp
  next
    case (Suc m)
    have "\<forall>y\<in>set (take m xs). P x y"
      using Cons.prems by (auto dest: in_set_takeD)
    with Cons Suc show ?thesis by simp
  qed
qed

lemma Items_publishedFeed:
  "elems (Items (publishedFeed sortSlice now http arrival a old))
     = take maxEntries (sortSlice byPublished (collected http arrival a))"
  by (simp add: publishedFeed_def Let_def)

subsection \<open>Order and size of the published feed\<close>

text \<open>
  Claim C2: a cycle returns without error and publishes a feed whose items are the first
  100 entries of the sorted sequence of collected entries; they are in descending order of
  their published timestamps and there are at most 100 of them, however many entries were
  collected.  (The arrival order is a permutation of the source indices, \<open>sort.Slice\<close>
  keeps its promise, and the aggregator holds a feed, as every aggregator made by
  \<open>NewAggregator\<close> does.)
\<close>

theorem FetchAllFeeds_sorted_capped:
  assumes "sortSliceOK sortSlice"
    and "arrivalOK (length (Sources a)) arrival"
    and "AggregatedFeed a = Some old"
  shows "\<exists>a' f. FetchAllFeeds sortSlice now http arrival a = Return (a', None)
           \<and> AggregatedFeed a' = Some f
           \<and> elems (Items f) = take 100 (sortSlice byPublished (collected http arrival a))
           \<and> sorted_wrt (\<lambda>x y. publishedAt y \<le> publishedAt x) (elems (Items f))
           \<and> length (elems (Items f)) = min 100 (length (collected http arrival a))
           \<and> length (elems (Items f)) \<le> 100"
proof -
  let ?f = "publishedFeed sortSlice now http arrival a old"
  let ?a = "a\<lparr>Sources := updateSources now 0 (resultsOf http arrival) (Sources a),
              AggregatedFeed := Some ?f\<rparr>"
  have run: "FetchAllFeeds sortSlice now http arrival a = Return (?a, None)"
    by (rule FetchAllFeeds_result [OF assms(2,3)])
  have items: "elems (Items ?f) = take 100 (sortSlice byPublished (collected http arrival a))"
    by (simp add: Items_publishedFeed maxEntries_def)
  have sorted: "sorted_wrt (\<lambda>x y. publishedAt y \<le> publishedAt x) (elems (Items ?f))"
    unfolding items by (rule sorted_wrt_take_desc) (rule sortSliceOK_props(2) [OF assms(1)])
  have len: "length (elems (Items ?f)) = min 100 (length (collected http arrival a))"
    unfolding items by (simp add: sortSliceOK_props(3) [OF assms(1)] min.commute)
  show ?thesis
  proof (intro exI conjI)
    show "FetchAllFeeds sortSlice now http arrival a = Return (?a, None)" by (rule run)
    show "AggregatedFeed ?a = Some ?f" by simp
    show "elems (Items ?f) = take 100 (sortSlice byPublished (collected http arrival a))"
      by (rule items)
    show "sorted_wrt (\<lambda>x y. publishedAt y \<le> publishedAt x) (elems (Items ?f))" by (rule sorted)
    show "length (elems (Items ?f)) = min 100 (length (collected http arrival a))" by (rule len)
    show "length (elems (Items ?f)) \<le> 100" unfolding len by simp
  qed
qed

lemma arrival_10: "arrivalOK (length (Sources twoSources)) [1, 0]"
  by code_simp

lemma feed_twoSources:
  "AggregatedFeed twoSources
     = Some (NewFeed t1 ''Tech News Aggregator'' ''http://localhost:8181/feed.json'')"
  by (simp add: twoSources_def AddSource_def freshAggregator_def NewAggregator_def)

lemma collected_AB:
  "collected httpAB [1, 0] twoSources = [enrich ''A'' a1, enrich ''A'' a2]"
  by code_simp

lemma len_many: "length (collected httpMany [0] oneSource) = 120"
  by code_simp

lemma arrival_0: "arrivalOK (length (Sources oneSource)) [0]"
  by code_simp

lemma feed_oneSource:
  "AggregatedFeed oneSource
     = Some (NewFeed t1 ''Tech News Aggregator'' ''http://localhost:8181/feed.json'')"
  by (simp add: oneSource_def AddSource_def freshAggregator_def NewAggregator_def)

theorem FetchAllFeeds_sorted_capped_witness:
  "(\<exists>a' f. FetchAllFeeds insertionSort sampleClock httpAB [1, 0] twoSources = Return (a', None)
           \<and> AggregatedFeed a' = Some f
           \<and> elems (Items f) = [enrich ''A'' a2, enrich ''A'' a1]
           \<and> length (elems (Items f)) \<le> 100)
   \<and> length (collected httpMany [0] oneSource) = 120
   \<and> (\<exists>a' f. FetchAllFeeds insertionSort sampleClock httpMany [0] oneSource = Return (a', None)
           \<and> AggregatedFeed a' = Some f
           \<and> length (elems (Items f)) = 100)"
proof (intro conjI)
  have srt: "take 100 (insertionSort byPublished (collected httpAB [1, 0] twoSources))
             = [enrich ''A'' a2, enrich ''A'' a1]"
    by code_simp
  from FetchAllFeeds_sorted_capped [OF sortSliceOK_insertionSort arrival_10 feed_twoSources,
      of sampleClock httpAB]
  show "\<exists>a' f. FetchAllFeeds insertionSort sampleClock httpAB [1, 0] twoSources = Return (a', None)
           \<and> AggregatedFeed a' = Some f
           \<and> elems (Items f) = [enrich ''A'' a2, enrich ''A'' a1]
           \<and> length (elems (Items f)) \<le> 100"
    unfolding srt by blast
  show many: "length (collected httpMany [0] oneSource) = 120"
    by (rule len_many)
  from FetchAllFeeds_sorted_capped [OF sortSliceOK_insertionSort arrival_0 feed_oneSource,
      of sampleClock httpMany]
  show "\<exists>a' f. FetchAllFeeds insertionSort sampleClock httpMany [0] oneSource = Return (a', None)
           \<and> AggregatedFeed a' = Some f
           \<and> length (elems (Items f)) = 100"
    unfolding many by auto
qed

subsection \<open>Cycles never fail\<close>











subsection \<open>Entries with equal timestamps\<close>





subsection \<open>Source statuses and the origin of the published entries\<close>

lemma Status_fetchedSource:
  "Status (fetchedSource t res src) = (case res of Inl err \<Rightarrow> ''error'' | Inr feed \<Rightarrow> ''active'')"
  by (cases res) (simp_all add: fetchedSource_def)

lemma LastFetch_fetchedSource [simp]: "LastFetch (fetchedSource t res src) = t"
  by (cases res) (simp_all add: fetchedSource_def)

lemma source_after_cycle:
  assumes ok: "arrivalOK (length srcs) arrival" and i: "i < length srcs"
  shows "\<exists>j<length srcs. arrival ! j = i
           \<and> updateSources now 0 (resultsOf http arrival) srcs ! i
               = fetchedSource (now j) (fetchFeedWithTimeout (http i)) (srcs ! i)"
proof -
  note facts = arrivalOK_facts [OF ok]
  have "i \<in> set arrival" using facts(2) i by simp
  then obtain j where j: "j < length arrival" "arrival ! j = i"
    by (auto simp: in_set_conv_nth)
  let ?rs = "resultsOf http arrival"
  have rj: "?rs ! j = \<lparr>index = i, fetched = fetchFeedWithTimeout (http i)\<rparr>"
    using j by (simp add: resultsOf_def)
  have dist: "distinct (map index ?rs)"
    using facts(1) by (simp add: resultsOf_def comp_def)
  have "updateSources now 0 ?rs srcs ! index (?rs ! j)
          = fetchedSource (now (0 + j)) (fetched (?rs ! j)) (srcs ! index (?rs ! j))"
  proof (rule updateSources_nth [OF dist])
    show "j < length ?rs" using j by (simp add: resultsOf_def)
    show "index (?rs ! j) < length srcs" using rj i by simp
  qed
  then have "updateSources now 0 ?rs srcs ! i
          = fetchedSource (now j) (fetchFeedWithTimeout (http i)) (srcs ! i)"
    by (simp add: rj)
  with j facts(3) show ?thesis by auto
qed

lemma status_after_cycle:
  assumes "arrivalOK (length srcs) arrival" and "i < length srcs"
  shows "Status (updateSources now 0 (resultsOf http arrival) srcs ! i)
           = (if failed http i then ''error'' else ''active'')"
proof -
  from source_after_cycle [OF assms, of now http]
  obtain j where "updateSources now 0 (resultsOf http arrival) srcs ! i
               = fetchedSource (now j) (fetchFeedWithTimeout (http i)) (srcs ! i)"
    by blast
  then show ?thesis
    by (cases "fetchFeedWithTimeout (http i)") (simp_all add: Status_fetchedSource failed_def)
qed

lemma count_statuses:
  assumes ok: "arrivalOK (length srcs) arrival"
  shows "length (filter (\<lambda>s. Status s = ''error'')
           (updateSources now 0 (resultsOf http arrival) srcs))
         = card {i. i < length srcs \<and> failed http i}"
    and "length (filter (\<lambda>s. Status s = ''active'')
           (updateSources now 0 (resultsOf http arrival) srcs))
         = card {i. i < length srcs \<and> \<not> failed http i}"
proof -
  let ?u = "updateSources now 0 (resultsOf http arrival) srcs"
  have e: "{i. i < length ?u \<and> Status (?u ! i) = ''error''}
           = {i. i < length srcs \<and> failed http i}"
    using status_after_cycle [OF ok, of _ now http] by (auto split: if_splits)
  have a: "{i. i < length ?u \<and> Status (?u ! i) = ''active''}
           = {i. i < length srcs \<and> \<not> failed http i}"
    using status_after_cycle [OF ok, of _ now http] by (auto split: if_splits)
  show "length (filter (\<lambda>s. Status s = ''error'') ?u)
         = card {i. i < length srcs \<and> failed http i}"
    by (simp only: length_filter_conv_card e)
  show "length (filter (\<lambda>s. Status s = ''active'') ?u)
         = card {i. i < length srcs \<and> \<not> failed http i}"
    by (simp only: length_filter_conv_card a)
qed

lemma card_split_failed:
  "card {i. i < n \<and> \<not> P i} + card {i. i < n \<and> P i} = n"
proof -
  have "card ({i. i < n \<and> \<not> P i} \<union> {i. i < n \<and> P i})
          = card {i. i < n \<and> \<not> P i} + card {i. i < n \<and> P i}"
    by (rule card_Un_disjoint) auto
  moreover have "{i. i < n \<and> \<not> P i} \<union> {i. i < n \<and> P i} = {..<n}" by auto
  ultimately show ?thesis by simp
qed

lemma collected_origin:
  assumes "e \<in> set (collected http arrival a)"
  shows "\<exists>i\<in>set arrival. \<exists>feed e0. fetchFeedWithTimeout (http i) = Inr feed
            \<and> e0 \<in> set (elems (Items feed)) \<and> e = enrich (SourceName (Sources a ! i)) e0"
proof -
  from assms obtain i where i: "i \<in> set arrival" "e \<in> set (entriesFrom http (Sources a) i)"
    by (auto simp: collected_def)
  show ?thesis
  proof (cases "fetchFeedWithTimeout (http i)")
    case (Inl err)
    with i(2) show ?thesis by (simp add: entriesFrom_def)
  next
    case (Inr feed)
    with i(2) obtain e0 where "e0 \<in> set (elems (Items feed))"
        "e = enrich (SourceName (Sources a ! i)) e0"
      by (auto simp: entriesFrom_def)
    with i(1) Inr show ?thesis by blast
  qed
qed

text \<open>
  Claim C4: after a cycle over \<open>N\<close> sources of which \<open>K\<close> fail, every source has
  status \<open>error\<close> (if its fetch failed) or \<open>active\<close> (if not), so the statistics count
  \<open>K\<close> sources in error and \<open>N - K\<close> active ones, \<open>N\<close> in all; the \<open>LastFetch\<close> of
  every source is the clock reading taken when its result was received in this cycle;
  and every item of the published feed is the marked copy of an entry of the feed that a
  successful source delivered.
\<close>

theorem FetchAllFeeds_statuses:
  assumes "sortSliceOK sortSlice"
    and "arrivalOK (length (Sources a)) arrival"
    and "AggregatedFeed a = Some old"
  shows "\<exists>a' f st. FetchAllFeeds sortSlice now http arrival a = Return (a', None)
           \<and> AggregatedFeed a' = Some f \<and> GetStats a' = Return st
           \<and> length (Sources a') = length (Sources a)
           \<and> (\<forall>i<length (Sources a).
                 Status (Sources a' ! i) = (if failed http i then ''error'' else ''active'')
                 \<and> (\<exists>j<length (Sources a). arrival ! j = i
                       \<and> LastFetch (Sources a' ! i) = now j))
           \<and> total_sources st = length (Sources a)
           \<and> error_sources st = card {i. i < length (Sources a) \<and> failed http i}
           \<and> active_sources st
               = length (Sources a) - card {i. i < length (Sources a) \<and> failed http i}
           \<and> active_sources st + error_sources st = length (Sources a)
           \<and> (\<forall>e\<in>set (elems (Items f)). \<exists>i<length (Sources a). \<not> failed http i
                 \<and> (\<exists>feed e0. fetchFeedWithTimeout (http i) = Inr feed
                       \<and> e0 \<in> set (elems (Items feed))
                       \<and> e = enrich (SourceName (Sources a ! i)) e0))"
proof -
  let ?n = "length (Sources a)"
  let ?u = "updateSources now 0 (resultsOf http arrival) (Sources a)"
  let ?f = "publishedFeed sortSlice now http arrival a old"
  let ?a = "a\<lparr>Sources := ?u, AggregatedFeed := Some ?f\<rparr>"
  let ?K = "card {i. i < ?n \<and> failed http i}"
  let ?st = "\<lparr>total_sources = ?n,
              active_sources = length (filter (\<lambda>s. Status s = ''active'') ?u),
              error_sources = length (filter (\<lambda>s. Status s = ''error'') ?u),
              total_entries = length (elems (Items ?f)), last_updated = LastUpdated ?f\<rparr>"
  note cnt = count_statuses [OF assms(2), of now http]
  note split = card_split_failed [of ?n "failed http"]
  have run: "FetchAllFeeds sortSlice now http arrival a = Return (?a, None)"
    by (rule FetchAllFeeds_result [OF assms(2,3)])
  have feed: "AggregatedFeed ?a = Some ?f" by simp
  have stats: "GetStats ?a = Return ?st" by (simp add: GetStats_def Let_def)
  have len: "length (Sources ?a) = ?n" by simp
  have tot: "total_sources ?st = ?n" by simp
  have err: "error_sources ?st = ?K" using cnt(1) by simp
  have act: "active_sources ?st = ?n - ?K" using cnt(2) split by simp
  have sum: "active_sources ?st + error_sources ?st = ?n" using cnt split by simp
  have src: "\<forall>i<?n. Status (Sources ?a ! i) = (if failed http i then ''error'' else ''active'')
                 \<and> (\<exists>j<?n. arrival ! j = i \<and> LastFetch (Sources ?a ! i) = now j)"
  proof (intro allI impI conjI)
    fix i assume i: "i < ?n"
    show "Status (Sources ?a ! i) = (if failed http i then ''error'' else ''active'')"
      using status_after_cycle [OF assms(2) i, of now http] by simp
    from source_after_cycle [OF assms(2) i, of now http]
    show "\<exists>j<?n. arrival ! j = i \<and> LastFetch (Sources ?a ! i) = now j"
      by auto
  qed
  have origin: "\<forall>e\<in>set (elems (Items ?f)). \<exists>i<?n. \<not> failed http i
                 \<and> (\<exists>feed e0. fetchFeedWithTimeout (http i) = Inr feed
                       \<and> e0 \<in> set (elems (Items feed))
                       \<and> e = enrich (SourceName (Sources a ! i)) e0)"
  proof
    fix e assume "e \<in> set (elems (Items ?f))"
    then have "e \<in> set (sortSlice byPublished (collected http arrival a))"
      by (auto simp: Items_publishedFeed dest: in_set_takeD)
    then have "e \<in> set (collected http arrival a)"
      by (simp add: sortSliceOK_props(4) [OF assms(1)])
    then obtain i feed e0 where i: "i \<in> set arrival"
        and o: "fetchFeedWithTimeout (http i) = Inr feed" "e0 \<in> set (elems (Items feed))"
          "e = enrich (SourceName (Sources a ! i)) e0"
      using collected_origin by blast
    have "i < ?n" using i arrivalOK_facts(2) [OF assms(2)] by simp
    moreover have "\<not> failed http i" using o(1) by (simp add: failed_def)
    ultimately show "\<exists>i<?n. \<not> failed http i
                 \<and> (\<exists>feed e0. fetchFeedWithTimeout (http i) = Inr feed
                       \<and> e0 \<in> set (elems (Items feed))
                       \<and> e = enrich (SourceName (Sources a ! i)) e0)"
      using o by blast
  qed
  show ?thesis
    apply (rule exI [of _ ?a])
    apply (rule exI [of _ ?f])
    apply (rule exI [of _ ?st])
    using run feed stats len src tot err act sum origin
    apply (intro conjI)
    apply assumption+
    done
qed

lemma failed_httpAB: "\<not> failed httpAB 0" "failed httpAB 1"
  by code_simp+

lemma length_twoSources: "length (Sources twoSources) = 2"
  by code_simp

theorem FetchAllFeeds_statuses_witness:
  "\<exists>a' f st. FetchAllFeeds insertionSort sampleClock httpAB [1, 0] twoSources = Return (a', None)
           \<and> AggregatedFeed a' = Some f \<and> GetStats a' = Return st
           \<and> Status (Sources a' ! 0) = ''active'' \<and> Status (Sources a' ! 1) = ''error''
           \<and> active_sources st = 1 \<and> error_sources st = 1
           \<and> active_sources st + error_sources st = 2"
proof -
  have K: "card {i. i < (2::nat) \<and> failed httpAB i} = 1"
  proof -
    have "{i. i < (2::nat) \<and> failed httpAB i} = {1}"
      using failed_httpAB by (auto simp: less_2_cases_iff)
    then show ?thesis by simp
  qed
  from FetchAllFeeds_statuses [OF sortSliceOK_insertionSort arrival_10 feed_twoSources,
      of sampleClock httpAB]
  obtain a' f st where r:
    "FetchAllFeeds insertionSort sampleClock httpAB [1, 0] twoSources = Return (a', None)"
    "AggregatedFeed a' = Some f" "GetStats a' = Return st"
    "\<forall>i<length (Sources twoSources).
        Status (Sources a' ! i) = (if failed httpAB i then ''error'' else ''active'')
        \<and> (\<exists>j<length (Sources twoSources). [1, 0] ! j = i
              \<and> LastFetch (Sources a' ! i) = sampleClock j)"
    "error_sources st = card {i. i < length (Sources twoSources) \<and> failed httpAB i}"
    "active_sources st
       = length (Sources twoSources)
         - card {i. i < length (Sources twoSources) \<and> failed httpAB i}"
    by blast
  have s0: "Status (Sources a' ! 0) = ''active''"
    using r(4) failed_httpAB(1) by (simp add: length_twoSources)
  have s1: "Status (Sources a' ! 1) = ''error''"
    using r(4) failed_httpAB(2) by (simp add: length_twoSources)
  have e: "error_sources st = 1" using r(5) K by (simp add: length_twoSources)
  have a: "active_sources st = 1" using r(6) K by (simp add: length_twoSources)
  show ?thesis using r(1,2,3) s0 s1 e a by auto
qed

end
